theory Spec2Isabelle
  imports Complex_Main
begin

section \<open>SubTrack: billing dates and notification jobs\<close>

text \<open>
  A shallow embedding of the billing-date computation and of the three notification
  jobs of \<^verbatim>\<open>app.py\<close> and \<^verbatim>\<open>models.py\<close>. Python integers are \<open>int\<close>. The
  \<^verbatim>\<open>Float\<close> columns (prices, budget) are values of a type \<open>'a\<close> of which the code uses
  \<open>0\<close>, \<open>+\<close>, \<open>-\<close>, \<open>*\<close> and the comparisons, and of which nothing is assumed: no law
  of arithmetic or of order enters a proof unless a statement names it, so what is proved
  of amounts holds of Python's floats with their rounding as it holds of exact numbers.
  Exceptions are values of type \<open>exn\<close> returned on the left of a sum, and everything a
  function reads from or does to the outside (the clock, the record store, the mail
  transport) is threaded through a \<open>world\<close> record.
\<close>

subsection \<open>Exceptions\<close>

text \<open>
  All three are subclasses of Python's \<^verbatim>\<open>Exception\<close>: \<open>ValueError\<close> is raised by
  \<^verbatim>\<open>datetime(...)\<close> and \<^verbatim>\<open>monthrange\<close>, \<open>TransportError\<close> stands for whatever
  \<^verbatim>\<open>mail.send\<close> raises, \<open>StoreError\<close> for whatever a database query raises.
\<close>

datatype exn = ValueError | TransportError | StoreError

subsection \<open>The parts of Python's calendar and datetime modules that the code calls\<close>

definition MINYEAR :: int where
  "MINYEAR = 1"

definition MAXYEAR :: int where
  "MAXYEAR = 9999"

definition isleap :: "int \<Rightarrow> bool" where
  "isleap year \<longleftrightarrow> year mod 4 = 0 \<and> (year mod 100 \<noteq> 0 \<or> year mod 400 = 0)"

definition mdays :: "int list" where
  "mdays = [0, 31, 28, 31, 30, 31, 30, 31, 31, 30, 31, 30, 31]"

text \<open>
  \<^verbatim>\<open>calendar.monthrange(year, month)[1]\<close>: the number of days of the month. The first
  component (the weekday of the first day) is not used by the code and is left out.
\<close>

definition monthrange :: "int \<Rightarrow> int \<Rightarrow> exn + int" where
  "monthrange year month =
     (if \<not> (1 \<le> month \<and> month \<le> 12) then Inl ValueError
      else Inr (mdays ! nat month + (if month = 2 \<and> isleap year then 1 else 0)))"

record datetime =
  dt_year :: int
  dt_month :: int
  dt_day :: int
  dt_hour :: int
  dt_minute :: int
  dt_second :: int
  dt_microsecond :: int

definition DAYS_IN_MONTH :: "int list" where
  "DAYS_IN_MONTH = [-1, 31, 28, 31, 30, 31, 30, 31, 31, 30, 31, 30, 31]"

definition days_in_month :: "int \<Rightarrow> int \<Rightarrow> int" where
  "days_in_month year month =
     (if month = 2 \<and> isleap year then 29 else DAYS_IN_MONTH ! nat month)"

text \<open>The values a \<^verbatim>\<open>datetime\<close> object can hold (what its constructor accepts).\<close>

definition valid_datetime :: "datetime \<Rightarrow> bool" where
  "valid_datetime t \<longleftrightarrow>
     MINYEAR \<le> dt_year t \<and> dt_year t \<le> MAXYEAR \<and>
     1 \<le> dt_month t \<and> dt_month t \<le> 12 \<and>
     1 \<le> dt_day t \<and> dt_day t \<le> days_in_month (dt_year t) (dt_month t) \<and>
     0 \<le> dt_hour t \<and> dt_hour t < 24 \<and>
     0 \<le> dt_minute t \<and> dt_minute t < 60 \<and>
     0 \<le> dt_second t \<and> dt_second t < 60 \<and>
     0 \<le> dt_microsecond t \<and> dt_microsecond t < 1000000"

text \<open>\<^verbatim>\<open>datetime(year, month, day)\<close>: midnight of that day, or \<^verbatim>\<open>ValueError\<close>.\<close>

definition datetime_ymd :: "int \<Rightarrow> int \<Rightarrow> int \<Rightarrow> exn + datetime" where
  "datetime_ymd year month day =
     (if \<not> (MINYEAR \<le> year \<and> year \<le> MAXYEAR) then Inl ValueError
      else if \<not> (1 \<le> month \<and> month \<le> 12) then Inl ValueError
      else if \<not> (1 \<le> day \<and> day \<le> days_in_month year month) then Inl ValueError
      else Inr \<lparr>dt_year = year, dt_month = month, dt_day = day,
                dt_hour = 0, dt_minute = 0, dt_second = 0, dt_microsecond = 0\<rparr>)"

text \<open>The value of \<^verbatim>\<open>datetime(year, month, day)\<close> when the constructor accepts it.\<close>

definition midnight :: "int \<Rightarrow> int \<Rightarrow> int \<Rightarrow> datetime" where
  "midnight year month day =
     \<lparr>dt_year = year, dt_month = month, dt_day = day,
      dt_hour = 0, dt_minute = 0, dt_second = 0, dt_microsecond = 0\<rparr>"

definition days_before_year :: "int \<Rightarrow> int" where
  "days_before_year year = (let y = year - 1 in y * 365 + y div 4 - y div 100 + y div 400)"

definition DAYS_BEFORE_MONTH :: "int list" where
  "DAYS_BEFORE_MONTH = [-1, 0, 31, 59, 90, 120, 151, 181, 212, 243, 273, 304, 334]"

definition days_before_month :: "int \<Rightarrow> int \<Rightarrow> int" where
  "days_before_month year month =
     DAYS_BEFORE_MONTH ! nat month + (if month > 2 \<and> isleap year then 1 else 0)"

definition ymd2ord :: "int \<Rightarrow> int \<Rightarrow> int \<Rightarrow> int" where
  "ymd2ord year month day = days_before_year year + days_before_month year month + day"

definition toordinal :: "datetime \<Rightarrow> int" where
  "toordinal t = ymd2ord (dt_year t) (dt_month t) (dt_day t)"

record timedelta =
  days :: int
  seconds :: int
  microseconds :: int

text \<open>
  \<^verbatim>\<open>timedelta(days, seconds, microseconds)\<close> on integers: the constructor normalises to
  \<open>0 \<le> microseconds < 10^6\<close> and \<open>0 \<le> seconds < 86400\<close>, carrying into the days with
  Python's floor \<^verbatim>\<open>divmod\<close>, so the days of a negative duration round down.
\<close>

definition timedelta_new :: "int \<Rightarrow> int \<Rightarrow> int \<Rightarrow> timedelta" where
  "timedelta_new d s us =
     (let s1 = s + us div 1000000;
          us1 = us mod 1000000;
          d1 = d + s1 div 86400;
          s2 = s1 mod 86400
      in \<lparr>days = d1, seconds = s2, microseconds = us1\<rparr>)"

text \<open>\<^verbatim>\<open>a - b\<close> on two naive datetimes.\<close>

definition datetime_sub :: "datetime \<Rightarrow> datetime \<Rightarrow> timedelta" where
  "datetime_sub a b =
     (let days1 = toordinal a;
          days2 = toordinal b;
          secs1 = dt_second a + dt_minute a * 60 + dt_hour a * 3600;
          secs2 = dt_second b + dt_minute b * 60 + dt_hour b * 3600
      in timedelta_new (days1 - days2) (secs1 - secs2) (dt_microsecond a - dt_microsecond b))"

subsection \<open>The billing-date computation\<close>

text \<open>
  The block that \<^verbatim>\<open>get_days_until_payment\<close> (app.py 374-391),
  \<^verbatim>\<open>check_payment_reminders\<close> (app.py 265-283) and
  \<^verbatim>\<open>Subscription.get_next_payment_date\<close> (models.py 74-94) each contain, line for line
  the same, as a function of the billing day and of the clock reading \<open>now\<close>.
\<close>

definition next_payment_date :: "int \<Rightarrow> datetime \<Rightarrow> exn + datetime" where
  "next_payment_date billing_date now =
     (let current_year = dt_year now;
          current_month = dt_month now;
          (next_month, next_year) =
            (if dt_day now < billing_date then (current_month, current_year)
             else if current_month = 12 then (1, current_year + 1)
             else (current_month + 1, current_year))
      in case monthrange next_year next_month of
           Inl e \<Rightarrow> Inl e
         | Inr max_day \<Rightarrow>
             (let actual_day = min billing_date max_day
              in datetime_ymd next_year next_month actual_day))"

text \<open>\<^verbatim>\<open>days_until = (next_date - now).days\<close>\<close>

definition days_until_payment :: "int \<Rightarrow> datetime \<Rightarrow> exn + int" where
  "days_until_payment billing_date now =
     (case next_payment_date billing_date now of
        Inl e \<Rightarrow> Inl e
      | Inr next_date \<Rightarrow> Inr (days (datetime_sub next_date now)))"

subsection \<open>The record store\<close>

text \<open>
  The columns of \<^verbatim>\<open>User\<close> and \<^verbatim>\<open>Subscription\<close> that the jobs read, and the store
  that holds the two tables.
\<close>

record 'a user =
  u_id :: int
  email :: string
  monthly_budget :: 'a
  payment_reminders :: bool
  budget_alerts :: bool
  monthly_summary :: bool
  new_subscription :: bool

record 'a subscription =
  s_id :: int
  sub_name :: string
  monthly_price :: 'a
  billing_date :: int
  user_id :: int

record 'a store =
  users :: "'a user list"
  subscriptions :: "'a subscription list"

text \<open>The rows of \<^verbatim>\<open>subscriptions\<close> whose foreign key \<^verbatim>\<open>user_id\<close> is the user's key.\<close>

definition subscriptions_of :: "'a store \<Rightarrow> 'a user \<Rightarrow> 'a subscription list" where
  "subscriptions_of st u = filter (\<lambda>s. user_id s = u_id u) (subscriptions st)"

text \<open>Python's \<^verbatim>\<open>sum\<close>: a left fold that starts from 0.\<close>

definition py_sum :: "'a::{zero,plus} list \<Rightarrow> 'a" where
  "py_sum xs = foldl (+) 0 xs"

subsection \<open>The clock, the store reads and the mail transport\<close>

text \<open>
  A message is the data its HTML body is rendered from: the recipient and the values the
  sending function interpolates. For a payment reminder these are the subscription name,
  \<open>days_until\<close>, the price and the payment date; for a budget alert the total, the
  limit and the overage; for a monthly summary the total, the count and the list.
\<close>

datatype 'a message =
    PaymentReminder string string int 'a datetime
  | BudgetAlert string 'a 'a 'a
  | MonthlySummary string 'a int "'a subscription list"

text \<open>
  The world outside the process: \<open>clock w n\<close> is what the \<open>n\<close>-th call of
  \<^verbatim>\<open>datetime.now()\<close> returns and \<open>ticks\<close> counts the calls made so far;
  \<open>store_fate w i\<close> is the exception that the \<open>i\<close>-th read of the record store raises,
  if any, and \<open>reads\<close> counts the reads made so far; \<open>mail_fate w i m\<close> is the
  exception that the \<open>i\<close>-th call of \<^verbatim>\<open>mail.send\<close> raises when given \<open>m\<close>, if any;
  \<open>outbox\<close> records every call of \<^verbatim>\<open>mail.send\<close> with whether it returned.
\<close>

record 'a world =
  clock :: "nat \<Rightarrow> datetime"
  ticks :: nat
  store_fate :: "nat \<Rightarrow> exn option"
  reads :: nat
  mail_fate :: "nat \<Rightarrow> 'a message \<Rightarrow> exn option"
  outbox :: "('a message \<times> bool) list"

definition datetime_now :: "'a world \<Rightarrow> datetime \<times> 'a world" where
  "datetime_now w = (clock w (ticks w), w\<lparr>ticks := Suc (ticks w)\<rparr>)"

text \<open>One read of the store: it raises, or it returns the rows asked for.\<close>

definition store_read :: "'b \<Rightarrow> 'a world \<Rightarrow> (exn + 'b) \<times> 'a world" where
  "store_read rows w =
     (case store_fate w (reads w) of
        Some e \<Rightarrow> (Inl e, w\<lparr>reads := Suc (reads w)\<rparr>)
      | None \<Rightarrow> (Inr rows, w\<lparr>reads := Suc (reads w)\<rparr>))"

text \<open>\<^verbatim>\<open>User.query.filter(...).all()\<close> and \<^verbatim>\<open>User.query.filter_by(...).all()\<close>\<close>

definition query_users ::
  "'a store \<Rightarrow> ('a user \<Rightarrow> bool) \<Rightarrow> 'a world \<Rightarrow> (exn + 'a user list) \<times> 'a world" where
  "query_users st p w = store_read (filter p (users st)) w"



text \<open>
  \<^verbatim>\<open>user.subscriptions\<close>: the relationship is declared \<^verbatim>\<open>lazy=True\<close>, so the first
  access on a user object is a read of the store, which can raise; the list is then kept
  on the object.
\<close>

definition user_subscriptions ::
  "'a store \<Rightarrow> 'a user \<Rightarrow> 'a world \<Rightarrow> (exn + 'a subscription list) \<times> 'a world" where
  "user_subscriptions st u w = store_read (subscriptions_of st u) w"

text \<open>\<^verbatim>\<open>User.get_total_monthly_cost()\<close> on a user whose subscriptions are not loaded yet.\<close>

definition get_total_monthly_cost ::
  "'a::{zero,plus} store \<Rightarrow> 'a user \<Rightarrow> 'a world \<Rightarrow> (exn + 'a) \<times> 'a world" where
  "get_total_monthly_cost st u w =
     (case user_subscriptions st u w of
        (Inl e, w1) \<Rightarrow> (Inl e, w1)
      | (Inr subs, w1) \<Rightarrow> (Inr (py_sum (map monthly_price subs)), w1))"



definition mail_send :: "'a message \<Rightarrow> 'a world \<Rightarrow> (exn + unit) \<times> 'a world" where
  "mail_send msg w =
     (case mail_fate w (length (outbox w)) msg of
        Some e \<Rightarrow> (Inl e, w\<lparr>outbox := outbox w @ [(msg, False)]\<rparr>)
      | None \<Rightarrow> (Inr (), w\<lparr>outbox := outbox w @ [(msg, True)]\<rparr>))"

text \<open>\<^verbatim>\<open>get_days_until_payment(billing_date)\<close>, app.py 371-394.\<close>

definition get_days_until_payment :: "int \<Rightarrow> 'a world \<Rightarrow> (exn + int) \<times> 'a world" where
  "get_days_until_payment billing_day w =
     (let (now, w1) = datetime_now w in (days_until_payment billing_day now, w1))"

text \<open>
  \<^verbatim>\<open>Subscription.get_next_payment_date()\<close>, models.py 65-95. The source returns the date
  formatted by \<^verbatim>\<open>strftime\<close>; the model returns the date.
\<close>

definition get_next_payment_date ::
  "'a subscription \<Rightarrow> 'a world \<Rightarrow> (exn + datetime) \<times> 'a world" where
  "get_next_payment_date sub w =
     (let (now, w1) = datetime_now w in (next_payment_date (billing_date sub) now, w1))"

subsection \<open>Sending\<close>

text \<open>
  Each sending function is one \<^verbatim>\<open>try\<close> block that ends in \<^verbatim>\<open>return True\<close>, with
  \<^verbatim>\<open>except Exception as e: ... return False\<close>. The block is modelled first, then the
  handler around it.
\<close>

definition except_return_False :: "(exn + bool) \<times> 'a world \<Rightarrow> (exn + bool) \<times> 'a world" where
  "except_return_False r =
     (case r of (Inl e, w) \<Rightarrow> (Inr False, w) | (Inr b, w) \<Rightarrow> (Inr b, w))"

definition send_payment_reminder_try ::
  "'a user \<Rightarrow> 'a subscription \<Rightarrow> int \<Rightarrow> 'a world \<Rightarrow> (exn + bool) \<times> 'a world" where
  "send_payment_reminder_try u sub days_until w =
     (case get_next_payment_date sub w of
        (Inl e, w1) \<Rightarrow> (Inl e, w1)
      | (Inr payment_date, w1) \<Rightarrow>
          (case mail_send (PaymentReminder (email u) (sub_name sub) days_until
                             (monthly_price sub) payment_date) w1 of
             (Inl e, w2) \<Rightarrow> (Inl e, w2)
           | (Inr _, w2) \<Rightarrow> (Inr True, w2)))"

definition send_payment_reminder ::
  "'a user \<Rightarrow> 'a subscription \<Rightarrow> int \<Rightarrow> 'a world \<Rightarrow> (exn + bool) \<times> 'a world" where
  "send_payment_reminder u sub days_until w =
     except_return_False (send_payment_reminder_try u sub days_until w)"

definition send_budget_alert_try ::
  "'a user \<Rightarrow> 'a \<Rightarrow> 'a \<Rightarrow> 'a \<Rightarrow> 'a world \<Rightarrow> (exn + bool) \<times> 'a world" where
  "send_budget_alert_try u total_spending budget_limit overage w =
     (case mail_send (BudgetAlert (email u) total_spending budget_limit overage) w of
        (Inl e, w1) \<Rightarrow> (Inl e, w1)
      | (Inr _, w1) \<Rightarrow> (Inr True, w1))"

definition send_budget_alert ::
  "'a user \<Rightarrow> 'a \<Rightarrow> 'a \<Rightarrow> 'a \<Rightarrow> 'a world \<Rightarrow> (exn + bool) \<times> 'a world" where
  "send_budget_alert u total_spending budget_limit overage w =
     except_return_False (send_budget_alert_try u total_spending budget_limit overage w)"

text \<open>
  \<^verbatim>\<open>send_monthly_summary\<close> reads the clock once, for the month named in the body.
\<close>

definition send_monthly_summary_try ::
  "'a user \<Rightarrow> 'a \<Rightarrow> int \<Rightarrow> 'a subscription list \<Rightarrow> 'a world \<Rightarrow> (exn + bool) \<times> 'a world" where
  "send_monthly_summary_try u total_monthly subscription_count subscriptions_list w =
     (let (now, w1) = datetime_now w
      in case mail_send (MonthlySummary (email u) total_monthly subscription_count
                           subscriptions_list) w1 of
           (Inl e, w2) \<Rightarrow> (Inl e, w2)
         | (Inr _, w2) \<Rightarrow> (Inr True, w2))"

definition send_monthly_summary ::
  "'a user \<Rightarrow> 'a \<Rightarrow> int \<Rightarrow> 'a subscription list \<Rightarrow> 'a world \<Rightarrow> (exn + bool) \<times> 'a world" where
  "send_monthly_summary u total_monthly subscription_count subscriptions_list w =
     except_return_False
       (send_monthly_summary_try u total_monthly subscription_count subscriptions_list w)"

subsection \<open>The scheduled jobs\<close>

text \<open>
  Each job returns the number it prints when it completes (\<^verbatim>\<open>reminders_sent\<close>,
  \<^verbatim>\<open>alerts_sent\<close>, \<^verbatim>\<open>summaries_sent\<close>), or the exception that left it. The first
  clock reading of each job is the one its opening \<^verbatim>\<open>print\<close> formats. The first
  store read of each job is its query for the users; one more follows per user, when
  the loop first touches \<^verbatim>\<open>user.subscriptions\<close>.
\<close>

fun reminders_subscriptions ::
  "'a user \<Rightarrow> 'a subscription list \<Rightarrow> int \<Rightarrow> 'a world \<Rightarrow> (exn + int) \<times> 'a world" where
  "reminders_subscriptions u [] reminders_sent w = (Inr reminders_sent, w)"
| "reminders_subscriptions u (sub # subs) reminders_sent w =
     (let (now, w1) = datetime_now w
      in case next_payment_date (billing_date sub) now of
           Inl e \<Rightarrow> (Inl e, w1)
         | Inr next_date \<Rightarrow>
             (let days_until = days (datetime_sub next_date now)
              in if days_until = 3
                 then (case send_payment_reminder u sub days_until w1 of
                         (Inl e, w2) \<Rightarrow> (Inl e, w2)
                       | (Inr sent, w2) \<Rightarrow>
                           reminders_subscriptions u subs
                             (if sent then reminders_sent + 1 else reminders_sent) w2)
                 else reminders_subscriptions u subs reminders_sent w1))"

fun reminders_users ::
  "'a store \<Rightarrow> 'a user list \<Rightarrow> int \<Rightarrow> 'a world \<Rightarrow> (exn + int) \<times> 'a world" where
  "reminders_users st [] reminders_sent w = (Inr reminders_sent, w)"
| "reminders_users st (u # us) reminders_sent w =
     (case user_subscriptions st u w of
        (Inl e, w1) \<Rightarrow> (Inl e, w1)
      | (Inr subs, w1) \<Rightarrow>
          (case reminders_subscriptions u subs reminders_sent w1 of
             (Inl e, w2) \<Rightarrow> (Inl e, w2)
           | (Inr n, w2) \<Rightarrow> reminders_users st us n w2))"

definition check_payment_reminders :: "'a store \<Rightarrow> 'a world \<Rightarrow> (exn + int) \<times> 'a world" where
  "check_payment_reminders st w =
     (let (started, w0) = datetime_now w
      in case query_users st payment_reminders w0 of
           (Inl e, w1) \<Rightarrow> (Inl e, w1)
         | (Inr us, w1) \<Rightarrow> reminders_users st us 0 w1)"

fun budget_alerts_users ::
  "'a::{zero,plus,minus,ord} store \<Rightarrow> 'a user list \<Rightarrow> int \<Rightarrow> 'a world
     \<Rightarrow> (exn + int) \<times> 'a world" where
  "budget_alerts_users st [] alerts_sent w = (Inr alerts_sent, w)"
| "budget_alerts_users st (u # us) alerts_sent w =
     (case get_total_monthly_cost st u w of
        (Inl e, w1) \<Rightarrow> (Inl e, w1)
      | (Inr total_spending, w1) \<Rightarrow>
          (let budget_limit = monthly_budget u
           in if total_spending > budget_limit
              then (let overage = total_spending - budget_limit
                    in case send_budget_alert u total_spending budget_limit overage w1 of
                         (Inl e, w2) \<Rightarrow> (Inl e, w2)
                       | (Inr sent, w2) \<Rightarrow>
                           budget_alerts_users st us
                             (if sent then alerts_sent + 1 else alerts_sent) w2)
              else budget_alerts_users st us alerts_sent w1))"

definition check_budget_alerts ::
  "'a::{zero,plus,minus,ord} store \<Rightarrow> 'a world \<Rightarrow> (exn + int) \<times> 'a world" where
  "check_budget_alerts st w =
     (let (started, w0) = datetime_now w
      in case query_users st (\<lambda>u. budget_alerts u \<and> monthly_budget u > 0) w0 of
           (Inl e, w1) \<Rightarrow> (Inl e, w1)
         | (Inr us, w1) \<Rightarrow> budget_alerts_users st us 0 w1)"

text \<open>
  In the summary loop \<^verbatim>\<open>user.subscriptions\<close> is read first, so the call of
  \<^verbatim>\<open>get_total_monthly_cost()\<close> that follows sums the list already on the object.
\<close>

fun monthly_summaries_users ::
  "'a::{zero,plus} store \<Rightarrow> 'a user list \<Rightarrow> int \<Rightarrow> 'a world \<Rightarrow> (exn + int) \<times> 'a world" where
  "monthly_summaries_users st [] summaries_sent w = (Inr summaries_sent, w)"
| "monthly_summaries_users st (u # us) summaries_sent w =
     (case user_subscriptions st u w of
        (Inl e, w1) \<Rightarrow> (Inl e, w1)
      | (Inr subs, w1) \<Rightarrow>
          (let total_monthly = py_sum (map monthly_price subs);
               subscription_count = int (length subs)
           in case send_monthly_summary u total_monthly subscription_count subs w1 of
                (Inl e, w2) \<Rightarrow> (Inl e, w2)
              | (Inr sent, w2) \<Rightarrow>
                  monthly_summaries_users st us
                    (if sent then summaries_sent + 1 else summaries_sent) w2))"

definition send_all_monthly_summaries ::
  "'a::{zero,plus} store \<Rightarrow> 'a world \<Rightarrow> (exn + int) \<times> 'a world" where
  "send_all_monthly_summaries st w =
     (let (started, w0) = datetime_now w
      in case query_users st monthly_summary w0 of
           (Inl e, w1) \<Rightarrow> (Inl e, w1)
         | (Inr us, w1) \<Rightarrow> monthly_summaries_users st us 0 w1)"

subsection \<open>What the jobs are to decide, in the words of the specification\<close>

text \<open>
  The definitions of this subsection are not translations of code: they state, per user
  and per subscription, the decision that the specification describes, and the list of
  messages that a run over the whole store is then expected to hand to the transport.
  The jobs above are compared with them.
\<close>

text \<open>
  Total monthly cost: the sum of a user's subscription prices, added one after the other
  from 0 in the arithmetic of the amounts.
\<close>

definition total_monthly_cost :: "'a::{zero,plus} store \<Rightarrow> 'a user \<Rightarrow> 'a" where
  "total_monthly_cost st u = foldl (\<lambda>acc s. acc + monthly_price s) 0 (subscriptions_of st u)"

text \<open>
  Payment reminder: for a user with \<open>payment_reminders\<close>, a subscription is due for a
  reminder if \<open>days_until\<close> is exactly 3.
\<close>

definition reminder_for :: "'a user \<Rightarrow> 'a subscription \<Rightarrow> datetime \<Rightarrow> 'a message option" where
  "reminder_for u s now =
     (if payment_reminders u \<and> days_until_payment (billing_date s) now = Inr 3
      then Some (PaymentReminder (email u) (sub_name s) 3 (monthly_price s)
                   (projr (next_payment_date (billing_date s) now)))
      else None)"

definition reminders_among :: "'a store \<Rightarrow> 'a user list \<Rightarrow> datetime \<Rightarrow> 'a message list" where
  "reminders_among st us now =
     concat (map (\<lambda>u. List.map_filter (\<lambda>s. reminder_for u s now) (subscriptions_of st u)) us)"

definition reminders_due :: "'a store \<Rightarrow> datetime \<Rightarrow> 'a message list" where
  "reminders_due st now = reminders_among st (users st) now"

text \<open>
  Budget alert: for a user with \<open>budget_alerts\<close> and a budget above 0, an alert if the
  total is above the budget, carrying the overage.
\<close>

definition budget_alert_for ::
  "'a::{zero,plus,minus,ord} store \<Rightarrow> 'a user \<Rightarrow> 'a message option" where
  "budget_alert_for st u =
     (if budget_alerts u \<and> monthly_budget u > 0 \<and> total_monthly_cost st u > monthly_budget u
      then Some (BudgetAlert (email u) (total_monthly_cost st u) (monthly_budget u)
                   (total_monthly_cost st u - monthly_budget u))
      else None)"

definition alerts_due :: "'a::{zero,plus,minus,ord} store \<Rightarrow> 'a message list" where
  "alerts_due st = List.map_filter (budget_alert_for st) (users st)"

text \<open>Monthly summary: every user with \<open>monthly_summary\<close>, with no further condition.\<close>

definition summary_for :: "'a::{zero,plus} store \<Rightarrow> 'a user \<Rightarrow> 'a message option" where
  "summary_for st u =
     (if monthly_summary u
      then Some (MonthlySummary (email u) (total_monthly_cost st u)
                   (int (length (subscriptions_of st u))) (subscriptions_of st u))
      else None)"

definition summaries_due :: "'a::{zero,plus} store \<Rightarrow> 'a message list" where
  "summaries_due st = List.map_filter (summary_for st) (users st)"


text \<open>
  The entries that handing the messages \<open>ms\<close> to the transport, one after the other from
  its \<open>i\<close>-th call on, adds to the outbox, and the number of them that were delivered.
\<close>

fun stamp ::
  "(nat \<Rightarrow> 'a message \<Rightarrow> exn option) \<Rightarrow> nat \<Rightarrow> 'a message list \<Rightarrow> ('a message \<times> bool) list" where
  "stamp fate i [] = []"
| "stamp fate i (m # ms) = (m, fate i m = None) # stamp fate (Suc i) ms"

definition delivered :: "('a message \<times> bool) list \<Rightarrow> int" where
  "delivered entries = int (length (filter snd entries))"

text \<open>
  Calendar days, counted without any day number: the length of a month by the Gregorian
  rule, what a date of the calendar is, the day after a date, and the date \<open>k\<close> days
  after a date. \<open>today t\<close> is the date of \<open>t\<close>, at midnight.
\<close>

definition calendar_days :: "int \<Rightarrow> int \<Rightarrow> int" where
  "calendar_days year month =
     (if month = 2
      then (if 4 dvd year \<and> (\<not> 100 dvd year \<or> 400 dvd year) then 29 else 28)
      else if month = 4 \<or> month = 6 \<or> month = 9 \<or> month = 11 then 30 else 31)"

definition calendar_date :: "datetime \<Rightarrow> bool" where
  "calendar_date t \<longleftrightarrow>
     1 \<le> dt_month t \<and> dt_month t \<le> 12 \<and>
     1 \<le> dt_day t \<and> dt_day t \<le> calendar_days (dt_year t) (dt_month t) \<and>
     dt_hour t = 0 \<and> dt_minute t = 0 \<and> dt_second t = 0 \<and> dt_microsecond t = 0"

definition today :: "datetime \<Rightarrow> datetime" where
  "today t = midnight (dt_year t) (dt_month t) (dt_day t)"

definition day_after :: "datetime \<Rightarrow> datetime" where
  "day_after t =
     (if dt_day t < calendar_days (dt_year t) (dt_month t)
      then midnight (dt_year t) (dt_month t) (dt_day t + 1)
      else if dt_month t < 12 then midnight (dt_year t) (dt_month t + 1) 1
      else midnight (dt_year t + 1) 1 1)"

definition days_later :: "nat \<Rightarrow> datetime \<Rightarrow> datetime" where
  "days_later k t = (day_after ^^ k) t"

subsection \<open>Example data\<close>

text \<open>
  A store with three users and three subscriptions, a clock that stands still, stores
  and transports that work or fail at a given call, on which the definitions are
  evaluated below. Alice is over her budget of 100 by 20; Bob has no budget and has
  switched payment reminders off; Carol has no subscription.
\<close>

definition at_nine :: "int \<Rightarrow> int \<Rightarrow> int \<Rightarrow> datetime" where
  "at_nine year month day =
     \<lparr>dt_year = year, dt_month = month, dt_day = day,
      dt_hour = 9, dt_minute = 0, dt_second = 0, dt_microsecond = 0\<rparr>"

definition always_delivers :: "nat \<Rightarrow> real message \<Rightarrow> exn option" where
  "always_delivers i m = None"

definition first_send_fails :: "nat \<Rightarrow> real message \<Rightarrow> exn option" where
  "first_send_fails i m = (if i = 0 then Some TransportError else None)"

definition store_up :: "nat \<Rightarrow> exn option" where
  "store_up i = None"

definition store_down :: "nat \<Rightarrow> exn option" where
  "store_down i = Some StoreError"

definition third_read_fails :: "nat \<Rightarrow> exn option" where
  "third_read_fails i = (if i = 2 then Some StoreError else None)"

definition frozen_world ::
  "datetime \<Rightarrow> (nat \<Rightarrow> exn option) \<Rightarrow> (nat \<Rightarrow> real message \<Rightarrow> exn option) \<Rightarrow> real world" where
  "frozen_world now reading sending =
     \<lparr>clock = \<lambda>i. now, ticks = 0, store_fate = reading, reads = 0,
      mail_fate = sending, outbox = []\<rparr>"

definition alice :: "real user" where
  "alice = \<lparr>u_id = 1, email = ''alice@example.org'', monthly_budget = 100,
            payment_reminders = True, budget_alerts = True, monthly_summary = True,
            new_subscription = True\<rparr>"

definition bob :: "real user" where
  "bob = \<lparr>u_id = 2, email = ''bob@example.org'', monthly_budget = 0,
          payment_reminders = False, budget_alerts = True, monthly_summary = True,
          new_subscription = True\<rparr>"

definition carol :: "real user" where
  "carol = \<lparr>u_id = 3, email = ''carol@example.org'', monthly_budget = 50,
            payment_reminders = True, budget_alerts = True, monthly_summary = True,
            new_subscription = True\<rparr>"

definition video :: "real subscription" where
  "video = \<lparr>s_id = 1, sub_name = ''video'', monthly_price = 70, billing_date = 16,
            user_id = 1\<rparr>"

definition music :: "real subscription" where
  "music = \<lparr>s_id = 2, sub_name = ''music'', monthly_price = 50, billing_date = 15,
            user_id = 1\<rparr>"

definition cloud :: "real subscription" where
  "cloud = \<lparr>s_id = 3, sub_name = ''cloud'', monthly_price = 30, billing_date = 16,
            user_id = 2\<rparr>"

definition example_store :: "real store" where
  "example_store = \<lparr>users = [alice, bob, carol], subscriptions = [video, music, cloud]\<rparr>"

section \<open>Properties of the date computation\<close>

subsection \<open>Month lengths\<close>

lemma month_cases:
  fixes m :: int
  assumes "1 \<le> m" "m \<le> 12"
  shows "m = 1 \<or> m = 2 \<or> m = 3 \<or> m = 4 \<or> m = 5 \<or> m = 6 \<or> m = 7 \<or> m = 8 \<or> m = 9 \<or> m = 10 \<or> m = 11 \<or> m = 12"
  using assms by arith

lemma monthrange_days_in_month:
  assumes "1 \<le> m" "m \<le> 12"
  shows "monthrange y m = Inr (days_in_month y m)"
  using month_cases [OF assms]
  by (auto simp: monthrange_def days_in_month_def mdays_def DAYS_IN_MONTH_def)

lemma days_in_month_bounds:
  assumes "1 \<le> m" "m \<le> 12"
  shows "28 \<le> days_in_month y m \<and> days_in_month y m \<le> 31"
  using month_cases [OF assms]
  by (auto simp: days_in_month_def DAYS_IN_MONTH_def)

lemma days_in_month_calendar:
  assumes "1 \<le> m" "m \<le> 12"
  shows "days_in_month y m =
           (if m = 2 then (if isleap y then 29 else 28)
            else if m = 4 \<or> m = 6 \<or> m = 9 \<or> m = 11 then 30 else 31)"
  using month_cases [OF assms]
  by (auto simp: days_in_month_def DAYS_IN_MONTH_def)

subsection \<open>The resolved date in closed form\<close>

lemma datetime_ymd_clamped:
  assumes "MINYEAR \<le> y" "y \<le> MAXYEAR" "1 \<le> m" "m \<le> 12" "1 \<le> d"
  shows "datetime_ymd y m (min d (days_in_month y m)) = Inr (midnight y m (min d (days_in_month y m)))"
  using assms days_in_month_bounds [OF assms(3,4), of y]
  by (simp add: datetime_ymd_def midnight_def)

lemma next_payment_date_this_month:
  assumes "valid_datetime now" "1 \<le> d" "dt_day now < d"
  shows "next_payment_date d now =
           Inr (midnight (dt_year now) (dt_month now) (min d (days_in_month (dt_year now) (dt_month now))))"
  using assms
  by (simp add: next_payment_date_def valid_datetime_def monthrange_days_in_month datetime_ymd_clamped Let_def)

lemma next_payment_date_next_month:
  assumes "valid_datetime now" "1 \<le> d" "\<not> dt_day now < d" "dt_month now \<noteq> 12"
  shows "next_payment_date d now =
           Inr (midnight (dt_year now) (dt_month now + 1) (min d (days_in_month (dt_year now) (dt_month now + 1))))"
  using assms
  by (simp add: next_payment_date_def valid_datetime_def monthrange_days_in_month datetime_ymd_clamped Let_def)

lemma next_payment_date_january:
  assumes "valid_datetime now" "1 \<le> d" "\<not> dt_day now < d" "dt_month now = 12" "dt_year now < MAXYEAR"
  shows "next_payment_date d now =
           Inr (midnight (dt_year now + 1) 1 (min d (days_in_month (dt_year now + 1) 1)))"
  using assms
  by (simp add: next_payment_date_def valid_datetime_def monthrange_days_in_month datetime_ymd_clamped Let_def)

lemma next_payment_date_past_maxyear:
  assumes "valid_datetime now" "\<not> dt_day now < d" "dt_month now = 12" "dt_year now = MAXYEAR"
  shows "next_payment_date d now = Inl ValueError"
  using assms
  by (simp add: next_payment_date_def valid_datetime_def monthrange_days_in_month datetime_ymd_def Let_def)

lemma next_payment_date_cases:
  assumes "valid_datetime now" "1 \<le> d" "dt_year now < MAXYEAR"
  obtains
    (this_month) "dt_day now < d"
      "next_payment_date d now =
         Inr (midnight (dt_year now) (dt_month now) (min d (days_in_month (dt_year now) (dt_month now))))"
  | (next_month) "\<not> dt_day now < d" "dt_month now \<noteq> 12"
      "next_payment_date d now =
         Inr (midnight (dt_year now) (dt_month now + 1) (min d (days_in_month (dt_year now) (dt_month now + 1))))"
  | (january) "\<not> dt_day now < d" "dt_month now = 12"
      "next_payment_date d now =
         Inr (midnight (dt_year now + 1) 1 (min d (days_in_month (dt_year now + 1) 1)))"
  using assms next_payment_date_this_month next_payment_date_next_month next_payment_date_january
  by blast

subsection \<open>Whole days of a duration\<close>

lemma div_minus_one_range:
  fixes a b :: int
  assumes "- b \<le> a" "a < 0"
  shows "a div b = - 1"
  by (rule int_div_pos_eq [where r = "a + b"]) (use assms in auto)

lemma days_sub_midnight:
  assumes "valid_datetime now"
    and "0 < dt_hour now \<or> 0 < dt_minute now \<or> 0 < dt_second now \<or> 0 < dt_microsecond now"
  shows "days (datetime_sub (midnight y m d) now) = toordinal (midnight y m d) - toordinal now - 1"
proof -
  define secs where "secs = dt_second now + dt_minute now * 60 + dt_hour now * 3600"
  define us where "us = dt_microsecond now"
  have us: "0 \<le> us" "us < 1000000" and secs: "0 \<le> secs" "secs < 86400"
    using assms(1) by (auto simp: valid_datetime_def secs_def us_def)
  have pos: "0 < secs \<or> 0 < us"
    using assms by (auto simp: valid_datetime_def secs_def us_def)
  have carry: "(- us) div 1000000 = (if us = 0 then 0 else - 1)"
    using us by (simp add: div_minus_one_range)
  have "- 86400 \<le> - secs + (- us) div 1000000" "- secs + (- us) div 1000000 < 0"
    using secs us pos by (auto simp: carry)
  then have "(- secs + (- us) div 1000000) div 86400 = - 1"
    by (rule div_minus_one_range)
  then show ?thesis
    by (simp add: datetime_sub_def timedelta_new_def Let_def midnight_def secs_def us_def)
qed

lemma days_sub_at_midnight:
  assumes "dt_hour now = 0" "dt_minute now = 0" "dt_second now = 0" "dt_microsecond now = 0"
  shows "days (datetime_sub (midnight y m d) now) = toordinal (midnight y m d) - toordinal now"
  using assms by (simp add: datetime_sub_def timedelta_new_def midnight_def)

subsection \<open>Day numbers across month and year ends\<close>

lemma div_pred:
  fixes y b :: int
  assumes "0 < b"
  shows "(y - 1) div b = y div b - (if y mod b = 0 then 1 else 0)"
proof (cases "y mod b = 0")
  case True
  have "(y - 1) div b = y div b - 1"
  proof (rule int_div_pos_eq [where r = "b - 1"])
    have "y = b * (y div b)" using True by (simp add: mod_eq_0_iff_dvd)
    then show "y - 1 = b * (y div b - 1) + (b - 1)" by (simp add: algebra_simps)
  qed (use assms in auto)
  with True show ?thesis by simp
next
  case False
  have r: "0 \<le> y mod b" "y mod b < b" using assms by simp_all
  have "(y - 1) div b = y div b"
  proof (rule int_div_pos_eq [where r = "y mod b - 1"])
    have "y = b * (y div b) + y mod b" by simp
    then show "y - 1 = b * (y div b) + (y mod b - 1)" by linarith
  qed (use r False in auto)
  with False show ?thesis by simp
qed

lemma mod_4_of_100: "(y::int) mod 100 = 0 \<Longrightarrow> y mod 4 = 0"
proof -
  assume "y mod 100 = 0"
  then have "100 dvd y" by (simp add: mod_eq_0_iff_dvd)
  moreover have "(4::int) dvd 100" by simp
  ultimately have "4 dvd y" by (rule dvd_trans [rotated])
  then show ?thesis by (simp add: mod_eq_0_iff_dvd)
qed

lemma mod_100_of_400: "(y::int) mod 400 = 0 \<Longrightarrow> y mod 100 = 0"
proof -
  assume "y mod 400 = 0"
  then have "400 dvd y" by (simp add: mod_eq_0_iff_dvd)
  moreover have "(100::int) dvd 400" by simp
  ultimately have "100 dvd y" by (rule dvd_trans [rotated])
  then show ?thesis by (simp add: mod_eq_0_iff_dvd)
qed

lemma days_before_year_Suc:
  "days_before_year (y + 1) = days_before_year y + (if isleap y then 366 else 365)"
  using mod_4_of_100 [of y] mod_100_of_400 [of y]
  by (auto simp: days_before_year_def isleap_def Let_def div_pred)

lemma days_before_month_Suc:
  assumes "1 \<le> m" "m < 12"
  shows "days_before_month y (m + 1) = days_before_month y m + days_in_month y m"
proof -
  have "m = 1 \<or> m = 2 \<or> m = 3 \<or> m = 4 \<or> m = 5 \<or> m = 6 \<or> m = 7 \<or> m = 8 \<or> m = 9 \<or> m = 10 \<or> m = 11"
    using assms by arith
  then show ?thesis
    by (auto simp: days_before_month_def days_in_month_def DAYS_BEFORE_MONTH_def DAYS_IN_MONTH_def)
qed

lemma days_before_january_next:
  "days_before_year (y + 1) + days_before_month (y + 1) 1 = days_before_year y + days_before_month y 12 + 31"
  by (simp add: days_before_year_Suc) (simp add: days_before_month_def DAYS_BEFORE_MONTH_def)

lemma days_in_december: "days_in_month y 12 = 31"
  by (simp add: days_in_month_def DAYS_IN_MONTH_def)

lemma days_in_january: "days_in_month y 1 = 31"
  by (simp add: days_in_month_def DAYS_IN_MONTH_def)

text \<open>The day number of the resolved date, counted from the day number of \<open>now\<close>.\<close>

lemma ordinal_gap:
  assumes "valid_datetime now" "1 \<le> d" "dt_year now < MAXYEAR"
    and "next_payment_date d now = Inr nd"
  shows "toordinal nd - toordinal now =
           (if dt_day now < d
            then min d (days_in_month (dt_year now) (dt_month now)) - dt_day now
            else days_in_month (dt_year now) (dt_month now) - dt_day now
                   + min d (days_in_month (dt_year nd) (dt_month nd)))"
  using assms(1,2,3)
proof (cases rule: next_payment_date_cases)
  case this_month
  with assms(4) show ?thesis
    by (auto simp: midnight_def toordinal_def ymd2ord_def)
next
  case next_month
  then have "1 \<le> dt_month now" "dt_month now < 12"
    using assms(1) by (simp_all add: valid_datetime_def)
  from days_before_month_Suc [OF this, of "dt_year now"] next_month assms(4) show ?thesis
    by (auto simp: midnight_def toordinal_def ymd2ord_def)
next
  case january
  with assms(4) days_before_january_next [of "dt_year now"] show ?thesis
    by (auto simp: midnight_def toordinal_def ymd2ord_def days_in_december)
qed

lemma datetime_ymd_valid:
  assumes "datetime_ymd y m d = Inr t"
  shows "valid_datetime t"
  using assms by (auto simp: datetime_ymd_def valid_datetime_def split: if_splits)

lemma next_payment_date_valid:
  assumes "next_payment_date d now = Inr nd"
  shows "valid_datetime nd"
  using assms
  by (auto simp: next_payment_date_def Let_def split: if_splits sum.splits
           intro: datetime_ymd_valid)

lemma ordinal_gap_bounds:
  assumes "valid_datetime now" "1 \<le> d" "dt_year now < MAXYEAR"
    and "next_payment_date d now = Inr nd"
  shows "0 \<le> toordinal nd - toordinal now" "toordinal nd - toordinal now \<le> 31"
    and "toordinal nd = toordinal now \<longleftrightarrow>
           dt_day now < d \<and> dt_day now = days_in_month (dt_year now) (dt_month now)"
proof -
  have m: "1 \<le> dt_month now" "dt_month now \<le> 12"
    and day: "1 \<le> dt_day now" "dt_day now \<le> days_in_month (dt_year now) (dt_month now)"
    using assms(1) by (simp_all add: valid_datetime_def)
  have m': "1 \<le> dt_month nd" "dt_month nd \<le> 12"
    using next_payment_date_valid [OF assms(4)] by (simp_all add: valid_datetime_def)
  note b = days_in_month_bounds [OF m, of "dt_year now"] days_in_month_bounds [OF m', of "dt_year nd"]
  note g = ordinal_gap [OF assms]
  show "0 \<le> toordinal nd - toordinal now"
    using g day b assms(2) by (auto simp: min_def split: if_splits)
  show "toordinal nd - toordinal now \<le> 31"
    using g day b assms(2) by (auto simp: min_def split: if_splits)
  show "toordinal nd = toordinal now \<longleftrightarrow>
           dt_day now < d \<and> dt_day now = days_in_month (dt_year now) (dt_month now)"
    using g day b assms(2) by (auto simp: min_def split: if_splits)
qed

lemmas date_defs =
  next_payment_date_def days_until_payment_def monthrange_def mdays_def isleap_def
  datetime_ymd_def MINYEAR_def MAXYEAR_def days_in_month_def DAYS_IN_MONTH_def
  datetime_sub_def toordinal_def ymd2ord_def days_before_year_def days_before_month_def
  DAYS_BEFORE_MONTH_def timedelta_new_def valid_datetime_def midnight_def

lemma days_until_payment_bounds:
  assumes "valid_datetime now" "1 \<le> d" "dt_year now < MAXYEAR"
  shows "\<exists>k. days_until_payment d now = Inr k \<and> - 1 \<le> k \<and> k \<le> 31 \<and>
           (k < 0 \<longleftrightarrow>
              dt_day now < d \<and> dt_day now = days_in_month (dt_year now) (dt_month now) \<and>
              (0 < dt_hour now \<or> 0 < dt_minute now \<or> 0 < dt_second now \<or> 0 < dt_microsecond now))"
proof -
  obtain nd where nd: "next_payment_date d now = Inr nd" and mid: "nd = midnight (dt_year nd) (dt_month nd) (dt_day nd)"
    using assms by (cases rule: next_payment_date_cases) (auto simp: midnight_def)
  note b = ordinal_gap_bounds [OF assms nd]
  show ?thesis
  proof (cases "0 < dt_hour now \<or> 0 < dt_minute now \<or> 0 < dt_second now \<or> 0 < dt_microsecond now")
    case True
    have "days (datetime_sub nd now) = toordinal nd - toordinal now - 1"
      using days_sub_midnight [OF assms(1) True, of "dt_year nd" "dt_month nd" "dt_day nd"] mid by simp
    then show ?thesis
      using b True nd by (auto simp: days_until_payment_def)
  next
    case False
    then have z: "dt_hour now = 0" "dt_minute now = 0" "dt_second now = 0" "dt_microsecond now = 0"
      using assms(1) by (auto simp: valid_datetime_def)
    have "days (datetime_sub nd now) = toordinal nd - toordinal now"
      using days_sub_at_midnight [OF z, of "dt_year nd" "dt_month nd" "dt_day nd"] mid by simp
    then show ?thesis
      using b False nd by (auto simp: days_until_payment_def)
  qed
qed

lemma days_until_floor:
  assumes "valid_datetime now" "1 \<le> d" "dt_year now < MAXYEAR"
    and "0 < dt_hour now \<or> 0 < dt_minute now \<or> 0 < dt_second now \<or> 0 < dt_microsecond now"
  shows "\<exists>nd. next_payment_date d now = Inr nd \<and>
           days_until_payment d now = Inr (toordinal nd - toordinal now - 1)"
  using assms(1,2,3)
  by (cases rule: next_payment_date_cases)
     (auto simp: days_until_payment_def days_sub_midnight [OF assms(1,4)])

subsection \<open>Calendar days and day numbers\<close>

lemma isleap_dvd: "isleap y \<longleftrightarrow> 4 dvd y \<and> (\<not> 100 dvd y \<or> 400 dvd y)"
  by (simp add: isleap_def mod_eq_0_iff_dvd)

lemma calendar_days_in_month:
  assumes "1 \<le> m" "m \<le> 12"
  shows "calendar_days y m = days_in_month y m"
  using days_in_month_calendar [OF assms, of y]
  by (simp add: calendar_days_def isleap_dvd)

lemma calendar_date_today:
  assumes "valid_datetime t"
  shows "calendar_date (today t)"
  using assms
  by (simp add: valid_datetime_def calendar_date_def today_def midnight_def
        calendar_days_in_month)

lemma toordinal_today: "toordinal (today t) = toordinal t"
  by (simp add: today_def midnight_def toordinal_def)

lemma calendar_days_bounds:
  "28 \<le> calendar_days y m \<and> calendar_days y m \<le> 31"
  by (simp add: calendar_days_def)

lemma day_after_calendar_date:
  assumes "calendar_date t"
  shows "calendar_date (day_after t)"
  using assms calendar_days_bounds [of "dt_year t" "dt_month t + 1"]
    calendar_days_bounds [of "dt_year t + 1" 1]
  by (auto simp: calendar_date_def day_after_def midnight_def)

lemma toordinal_day_after:
  assumes "calendar_date t"
  shows "toordinal (day_after t) = toordinal t + 1"
proof -
  have m: "1 \<le> dt_month t" "dt_month t \<le> 12"
    and d: "dt_day t \<le> calendar_days (dt_year t) (dt_month t)"
    using assms by (simp_all add: calendar_date_def)
  note len = calendar_days_in_month [OF m, of "dt_year t"]
  show ?thesis
  proof (cases "dt_day t < calendar_days (dt_year t) (dt_month t)")
    case True
    then show ?thesis
      by (simp add: day_after_def midnight_def toordinal_def ymd2ord_def)
  next
    case False
    with d have last: "dt_day t = days_in_month (dt_year t) (dt_month t)"
      using len by simp
    show ?thesis
    proof (cases "dt_month t < 12")
      case True
      from days_before_month_Suc [OF m(1) True, of "dt_year t"] False True last len
      show ?thesis
        by (simp add: day_after_def midnight_def toordinal_def ymd2ord_def)
    next
      case dec: False
      with m have "dt_month t = 12" by simp
      with days_before_january_next [of "dt_year t"] False last len
      show ?thesis
        by (simp add: day_after_def midnight_def toordinal_def ymd2ord_def days_in_december)
    qed
  qed
qed

lemma days_later_0: "days_later 0 t = t"
  by (simp add: days_later_def)

lemma days_later_Suc: "days_later (Suc k) t = day_after (days_later k t)"
  by (simp add: days_later_def)

lemma days_later_add: "days_later (j + k) t = days_later k (days_later j t)"
  by (simp add: days_later_def add.commute [of j k] funpow_add)

lemma days_later_calendar:
  assumes "calendar_date t"
  shows "calendar_date (days_later k t) \<and> toordinal (days_later k t) = toordinal t + int k"
proof (induction k)
  case 0
  show ?case using assms by (simp add: days_later_0)
next
  case (Suc k)
  then show ?case
    by (simp add: days_later_Suc day_after_calendar_date toordinal_day_after)
qed

lemma days_later_same_month:
  assumes "d + int k \<le> calendar_days y m"
  shows "days_later k (midnight y m d) = midnight y m (d + int k)"
  using assms
proof (induction k)
  case 0
  show ?case by (simp add: days_later_0)
next
  case (Suc k)
  then have "days_later k (midnight y m d) = midnight y m (d + int k)"
    and "d + int k < calendar_days y m"
    by simp_all
  then show ?case
    by (simp add: days_later_Suc day_after_def midnight_def add.assoc)
qed

lemma day_after_end_of_month:
  "day_after (midnight y m (calendar_days y m)) =
     (if m < 12 then midnight y (m + 1) 1 else midnight (y + 1) 1 1)"
  by (simp add: day_after_def midnight_def)

lemma days_later_next_month:
  assumes "d \<le> calendar_days y m" "1 \<le> a"
    and "a \<le> (if m < 12 then calendar_days y (m + 1) else calendar_days (y + 1) 1)"
  shows "days_later (nat (calendar_days y m - d + a)) (midnight y m d) =
           (if m < 12 then midnight y (m + 1) a else midnight (y + 1) 1 a)"
proof -
  have split: "nat (calendar_days y m - d + a) =
                 nat (calendar_days y m - d) + (Suc 0 + nat (a - 1))"
    using assms(1,2) by simp
  have first: "days_later (nat (calendar_days y m - d)) (midnight y m d) =
                 midnight y m (calendar_days y m)"
    using days_later_same_month [of d "nat (calendar_days y m - d)" y m] assms(1) by simp
  have rest: "days_later (nat (a - 1)) (midnight y' m' 1) = midnight y' m' a"
    if "a \<le> calendar_days y' m'" for y' m'
    using days_later_same_month [of 1 "nat (a - 1)" y' m'] that assms(2) by simp
  show ?thesis
  proof (cases "m < 12")
    case True
    with assms(3) have "a \<le> calendar_days y (m + 1)" by simp
    from rest [OF this] True show ?thesis
      unfolding split days_later_add first
      by (simp add: days_later_Suc days_later_0 day_after_end_of_month)
  next
    case False
    with assms(3) have "a \<le> calendar_days (y + 1) 1" by simp
    from rest [OF this] False show ?thesis
      unfolding split days_later_add first
      by (simp add: days_later_Suc days_later_0 day_after_end_of_month)
  qed
qed

lemma next_payment_date_days_later:
  assumes "valid_datetime now" "1 \<le> d" "dt_year now < MAXYEAR"
  shows "\<exists>k. next_payment_date d now = Inr (days_later k (today now)) \<and>
             days_later k (today now) =
               midnight (dt_year (days_later k (today now))) (dt_month (days_later k (today now)))
                 (dt_day (days_later k (today now)))"
proof -
  have m: "1 \<le> dt_month now" "dt_month now \<le> 12"
    and day: "1 \<le> dt_day now" "dt_day now \<le> days_in_month (dt_year now) (dt_month now)"
    using assms(1) by (simp_all add: valid_datetime_def)
  note len = calendar_days_in_month [OF m, of "dt_year now"]
  from assms show ?thesis
  proof (cases rule: next_payment_date_cases)
    case this_month
    let ?a = "min d (days_in_month (dt_year now) (dt_month now))"
    have "dt_day now + int (nat (?a - dt_day now)) \<le> calendar_days (dt_year now) (dt_month now)"
      using this_month(1) day len by simp
    from days_later_same_month [OF this]
    have "days_later (nat (?a - dt_day now)) (today now) = midnight (dt_year now) (dt_month now) ?a"
      using this_month(1) day by (simp add: today_def)
    with this_month(2) show ?thesis
      by (intro exI [of _ "nat (?a - dt_day now)"]) (simp add: midnight_def)
  next
    case next_month
    let ?a = "min d (days_in_month (dt_year now) (dt_month now + 1))"
    have m': "1 \<le> dt_month now + 1" "dt_month now + 1 \<le> 12"
      using m next_month(2) by simp_all
    note len' = calendar_days_in_month [OF m', of "dt_year now"]
    have lt: "dt_month now < 12" using m next_month(2) by simp
    have "days_later (nat (calendar_days (dt_year now) (dt_month now) - dt_day now + ?a))
            (midnight (dt_year now) (dt_month now) (dt_day now)) =
          midnight (dt_year now) (dt_month now + 1) ?a"
      using days_later_next_month [of "dt_day now" "dt_year now" "dt_month now" ?a]
        day len len' lt assms(2) days_in_month_bounds [OF m', of "dt_year now"]
      by simp
    with next_month(3) show ?thesis
      by (intro exI [of _ "nat (calendar_days (dt_year now) (dt_month now) - dt_day now + ?a)"])
         (simp add: today_def midnight_def)
  next
    case january
    let ?a = "min d (days_in_month (dt_year now + 1) 1)"
    have len': "calendar_days (dt_year now + 1) 1 = days_in_month (dt_year now + 1) 1"
      by (simp add: calendar_days_in_month)
    have "days_later (nat (calendar_days (dt_year now) (dt_month now) - dt_day now + ?a))
            (midnight (dt_year now) (dt_month now) (dt_day now)) =
          midnight (dt_year now + 1) 1 ?a"
      using days_later_next_month [of "dt_day now" "dt_year now" "dt_month now" ?a]
        day len len' january(2) assms(2) days_in_january [of "dt_year now + 1"]
      by simp
    with january(3) show ?thesis
      by (intro exI [of _ "nat (calendar_days (dt_year now) (dt_month now) - dt_day now + ?a)"])
         (simp add: today_def midnight_def)
  qed
qed

lemmas example_defs =
  at_nine_def always_delivers_def first_send_fails_def store_up_def store_down_def
  third_read_fails_def frozen_world_def
  alice_def bob_def carol_def video_def music_def cloud_def example_store_def

section \<open>Properties of the jobs\<close>

subsection \<open>Outbox entries\<close>

lemma stamp_append:
  "stamp fate i (xs @ ys) = stamp fate i xs @ stamp fate (i + length xs) ys"
  by (induction xs arbitrary: i) simp_all

lemma map_fst_stamp: "map fst (stamp fate i ms) = ms"
  by (induction ms arbitrary: i) simp_all

lemma length_stamp: "length (stamp fate i ms) = length ms"
  by (induction ms arbitrary: i) simp_all

lemma delivered_Nil: "delivered [] = 0"
  by (simp add: delivered_def)

lemma delivered_Cons: "delivered ((m, b) # es) = (if b then 1 else 0) + delivered es"
  by (simp add: delivered_def)

lemma delivered_append: "delivered (xs @ ys) = delivered xs + delivered ys"
  by (simp add: delivered_def)

subsection \<open>Totals\<close>

lemma py_sum_prices:
  "py_sum (map monthly_price (subscriptions_of st u)) = total_monthly_cost st u"
  by (simp add: py_sum_def total_monthly_cost_def foldl_map)

subsection \<open>Store reads\<close>

lemma store_read_ok:
  assumes "store_fate w (reads w) = None"
  shows "store_read rows w = (Inr rows, w\<lparr>reads := Suc (reads w)\<rparr>)"
  using assms by (simp add: store_read_def)

lemma store_read_fail:
  assumes "store_fate w (reads w) = Some e"
  shows "store_read rows w = (Inl e, w\<lparr>reads := Suc (reads w)\<rparr>)"
  using assms by (simp add: store_read_def)

lemma reads_shift:
  assumes "\<forall>i<Suc n. store_fate w (reads w + i) = None"
  shows "store_fate w (reads w) = None" "\<forall>i<n. store_fate w (Suc (reads w + i)) = None"
proof -
  from assms have "store_fate w (reads w + 0) = None" by blast
  then show "store_fate w (reads w) = None" by simp
  show "\<forall>i<n. store_fate w (Suc (reads w + i)) = None"
  proof (intro allI impI)
    fix i assume "i < n"
    then have "Suc i < Suc n" by simp
    with assms have "store_fate w (reads w + Suc i) = None" by blast
    then show "store_fate w (Suc (reads w + i)) = None" by simp
  qed
qed

subsection \<open>The sending functions in closed form\<close>

lemma send_budget_alert_eq:
  "send_budget_alert u t l ov w =
     (Inr (mail_fate w (length (outbox w)) (BudgetAlert (email u) t l ov) = None),
      w\<lparr>outbox := outbox w @ stamp (mail_fate w) (length (outbox w)) [BudgetAlert (email u) t l ov]\<rparr>)"
  by (simp add: send_budget_alert_def send_budget_alert_try_def except_return_False_def
        mail_send_def split: option.splits)

lemma send_monthly_summary_eq:
  "send_monthly_summary u t c subs w =
     (Inr (mail_fate w (length (outbox w)) (MonthlySummary (email u) t c subs) = None),
      w\<lparr>ticks := Suc (ticks w),
        outbox := outbox w @ stamp (mail_fate w) (length (outbox w)) [MonthlySummary (email u) t c subs]\<rparr>)"
  by (simp add: send_monthly_summary_def send_monthly_summary_try_def except_return_False_def
        mail_send_def datetime_now_def split: option.splits)

lemma send_payment_reminder_eq:
  "send_payment_reminder u s k w =
     (case next_payment_date (billing_date s) (clock w (ticks w)) of
        Inl e \<Rightarrow> (Inr False, w\<lparr>ticks := Suc (ticks w)\<rparr>)
      | Inr nd \<Rightarrow>
          (Inr (mail_fate w (length (outbox w))
                  (PaymentReminder (email u) (sub_name s) k (monthly_price s) nd) = None),
           w\<lparr>ticks := Suc (ticks w),
             outbox := outbox w @ stamp (mail_fate w) (length (outbox w))
               [PaymentReminder (email u) (sub_name s) k (monthly_price s) nd]\<rparr>))"
  by (simp add: send_payment_reminder_def send_payment_reminder_try_def except_return_False_def
        get_next_payment_date_def mail_send_def datetime_now_def split: option.splits sum.splits)

subsection \<open>The loops, while the store reads succeed\<close>

lemma budget_alerts_users_eq:
  assumes "\<forall>i<length us. store_fate w (reads w + i) = None"
    and "\<forall>u\<in>set us. budget_alerts u \<and> monthly_budget u > 0"
  shows "budget_alerts_users st us n w =
     (Inr (n + delivered (stamp (mail_fate w) (length (outbox w))
                            (List.map_filter (budget_alert_for st) us))),
      w\<lparr>reads := reads w + length us,
        outbox := outbox w @ stamp (mail_fate w) (length (outbox w))
                    (List.map_filter (budget_alert_for st) us)\<rparr>)"
  using assms
proof (induction us arbitrary: n w)
  case Nil
  show ?case by (simp add: delivered_Nil)
next
  case (Cons u us)
  from Cons.prems(1) have ok: "store_fate w (reads w) = None"
    and rest: "\<forall>i<length us. store_fate w (Suc (reads w + i)) = None"
    using reads_shift [of "length us" w] by simp_all
  from Cons.prems(2) have sel: "budget_alerts u" "monthly_budget u > 0"
    and sels: "\<forall>u\<in>set us. budget_alerts u \<and> monthly_budget u > 0"
    by simp_all
  have total: "get_total_monthly_cost st u w =
                 (Inr (total_monthly_cost st u), w\<lparr>reads := Suc (reads w)\<rparr>)"
    by (simp add: get_total_monthly_cost_def user_subscriptions_def store_read_ok [OF ok]
          py_sum_prices)
  show ?case
    using rest sel
    by (simp add: total Cons.IH [OF _ sels] send_budget_alert_eq delivered_Cons Let_def
          budget_alert_for_def)
qed

lemma monthly_summaries_users_eq:
  assumes "\<forall>i<length us. store_fate w (reads w + i) = None"
    and "\<forall>u\<in>set us. monthly_summary u"
  shows "monthly_summaries_users st us n w =
     (Inr (n + delivered (stamp (mail_fate w) (length (outbox w))
                            (List.map_filter (summary_for st) us))),
      w\<lparr>ticks := ticks w + length us, reads := reads w + length us,
        outbox := outbox w @ stamp (mail_fate w) (length (outbox w))
                    (List.map_filter (summary_for st) us)\<rparr>)"
  using assms
proof (induction us arbitrary: n w)
  case Nil
  show ?case by (simp add: delivered_Nil)
next
  case (Cons u us)
  from Cons.prems(1) have ok: "store_fate w (reads w) = None"
    and rest: "\<forall>i<length us. store_fate w (Suc (reads w + i)) = None"
    using reads_shift [of "length us" w] by simp_all
  from Cons.prems(2) have sel: "monthly_summary u" and sels: "\<forall>u\<in>set us. monthly_summary u"
    by simp_all
  show ?case
    using rest sel
    by (simp add: user_subscriptions_def store_read_ok [OF ok] py_sum_prices
          Cons.IH [OF _ sels] send_monthly_summary_eq delivered_Cons Let_def summary_for_def)
qed

lemma reminders_subscriptions_eq:
  assumes "\<forall>i. clock w i = now"
    and "\<forall>s\<in>set subs. \<exists>nd. next_payment_date (billing_date s) now = Inr nd"
    and "payment_reminders u"
  shows "reminders_subscriptions u subs n w =
     (Inr (n + delivered (stamp (mail_fate w) (length (outbox w))
                            (List.map_filter (\<lambda>s. reminder_for u s now) subs))),
      w\<lparr>ticks := ticks w + length subs + length (List.map_filter (\<lambda>s. reminder_for u s now) subs),
        outbox := outbox w @ stamp (mail_fate w) (length (outbox w))
                    (List.map_filter (\<lambda>s. reminder_for u s now) subs)\<rparr>)"
  using assms(1,2)
proof (induction subs arbitrary: n w)
  case Nil
  show ?case by (simp add: delivered_Nil)
next
  case (Cons s subs)
  from Cons.prems(2) obtain nd where nd: "next_payment_date (billing_date s) now = Inr nd"
    by auto
  have rest: "\<forall>s\<in>set subs. \<exists>nd. next_payment_date (billing_date s) now = Inr nd"
    using Cons.prems(2) by simp
  have now: "clock w (ticks w) = now" "clock w (Suc (ticks w)) = now"
    using Cons.prems(1) by simp_all
  show ?case
  proof (cases "days (datetime_sub nd now) = 3")
    case True
    have du: "reminder_for u s now =
                Some (PaymentReminder (email u) (sub_name s) 3 (monthly_price s) nd)"
      using nd True assms(3) by (simp add: reminder_for_def days_until_payment_def)
    show ?thesis
      using True nd now Cons.prems(1)
      by (simp add: datetime_now_def send_payment_reminder_eq Cons.IH [OF _ rest]
            du delivered_Cons)
  next
    case False
    have du: "reminder_for u s now = None"
      using nd False by (simp add: reminder_for_def days_until_payment_def)
    show ?thesis
      using False nd now Cons.prems(1)
      by (simp add: datetime_now_def Cons.IH [OF _ rest] du)
  qed
qed

lemma reminders_users_eq:
  assumes "\<forall>i. clock w i = now"
    and "\<forall>i<length us. store_fate w (reads w + i) = None"
    and "\<forall>u\<in>set us. \<forall>s\<in>set (subscriptions_of st u).
           \<exists>nd. next_payment_date (billing_date s) now = Inr nd"
    and "\<forall>u\<in>set us. payment_reminders u"
  shows "\<exists>t. reminders_users st us n w =
     (Inr (n + delivered (stamp (mail_fate w) (length (outbox w)) (reminders_among st us now))),
      w\<lparr>ticks := ticks w + t, reads := reads w + length us,
        outbox := outbox w @ stamp (mail_fate w) (length (outbox w))
                    (reminders_among st us now)\<rparr>)"
  using assms
proof (induction us arbitrary: n w)
  case Nil
  show ?case by (rule exI [of _ 0]) (simp add: delivered_Nil reminders_among_def)
next
  case (Cons u us)
  let ?due = "List.map_filter (\<lambda>s. reminder_for u s now) (subscriptions_of st u)"
  let ?rest = "reminders_among st us now"
  let ?w0 = "w\<lparr>reads := Suc (reads w)\<rparr>"
  let ?new = "stamp (mail_fate w) (length (outbox w)) ?due"
  let ?w1 = "w\<lparr>ticks := ticks w + length (subscriptions_of st u) + length ?due,
        reads := Suc (reads w), outbox := outbox w @ ?new\<rparr>"
  from Cons.prems(2) have ok: "store_fate w (reads w) = None"
    and rest_reads: "\<forall>i<length us. store_fate w (Suc (reads w + i)) = None"
    using reads_shift [of "length us" w] by simp_all
  have here: "\<forall>s\<in>set (subscriptions_of st u). \<exists>nd. next_payment_date (billing_date s) now = Inr nd"
    and rest: "\<forall>u\<in>set us. \<forall>s\<in>set (subscriptions_of st u).
           \<exists>nd. next_payment_date (billing_date s) now = Inr nd"
    and flag: "payment_reminders u" and flags: "\<forall>u\<in>set us. payment_reminders u"
    using Cons.prems(3,4) by simp_all
  have c0: "\<forall>i. clock ?w0 i = now" using Cons.prems(1) by simp
  have c1: "\<forall>i. clock ?w1 i = now" using Cons.prems(1) by simp
  have r1: "\<forall>i<length us. store_fate ?w1 (reads ?w1 + i) = None"
    using rest_reads by simp
  have inner: "reminders_subscriptions u (subscriptions_of st u) n ?w0 = (Inr (n + delivered ?new), ?w1)"
    using reminders_subscriptions_eq [OF c0 here flag, of n] by simp
  from Cons.IH [OF c1 r1 rest flags, of "n + delivered ?new"] obtain t where
    t: "reminders_users st us (n + delivered ?new) ?w1 =
     (Inr (n + delivered ?new + delivered (stamp (mail_fate ?w1) (length (outbox ?w1)) ?rest)),
      ?w1\<lparr>ticks := ticks ?w1 + t, reads := reads ?w1 + length us,
        outbox := outbox ?w1 @ stamp (mail_fate ?w1) (length (outbox ?w1)) ?rest\<rparr>)"
    by blast
  have among: "reminders_among st (u # us) now = ?due @ ?rest"
    by (simp add: reminders_among_def)
  show ?case
    apply (rule exI [of _ "length (subscriptions_of st u) + length ?due + t"])
    using t
    by (simp add: user_subscriptions_def store_read_ok [OF ok] inner among stamp_append
          delivered_append length_stamp add.assoc)
qed

subsection \<open>The loops, when a store read fails\<close>

lemma budget_alerts_users_append:
  "budget_alerts_users st (xs @ ys) n w =
     (case budget_alerts_users st xs n w of
        (Inl e, w') \<Rightarrow> (Inl e, w')
      | (Inr n', w') \<Rightarrow> budget_alerts_users st ys n' w')"
  by (induction xs arbitrary: n w) (auto simp: Let_def split: prod.splits sum.splits)

lemma monthly_summaries_users_append:
  "monthly_summaries_users st (xs @ ys) n w =
     (case monthly_summaries_users st xs n w of
        (Inl e, w') \<Rightarrow> (Inl e, w')
      | (Inr n', w') \<Rightarrow> monthly_summaries_users st ys n' w')"
  by (induction xs arbitrary: n w) (auto simp: Let_def split: prod.splits sum.splits)

lemma reminders_users_append:
  "reminders_users st (xs @ ys) n w =
     (case reminders_users st xs n w of
        (Inl e, w') \<Rightarrow> (Inl e, w')
      | (Inr n', w') \<Rightarrow> reminders_users st ys n' w')"
  by (induction xs arbitrary: n w) (auto split: prod.splits sum.splits)

lemma take_nth_drop:
  assumes "k < length us"
  shows "us = take k us @ us ! k # drop (Suc k) us"
  using assms by (simp add: id_take_nth_drop)

lemma budget_alerts_users_fail:
  assumes "k < length us" "\<forall>i<k. store_fate w (reads w + i) = None"
    and "store_fate w (reads w + k) = Some e"
    and "\<forall>u\<in>set us. budget_alerts u \<and> monthly_budget u > 0"
  shows "budget_alerts_users st us n w =
     (Inl e,
      w\<lparr>reads := reads w + Suc k,
        outbox := outbox w @ stamp (mail_fate w) (length (outbox w))
                    (List.map_filter (budget_alert_for st) (take k us))\<rparr>)"
proof -
  have len: "length (take k us) = k" using assms(1) by simp
  have sel: "\<forall>u\<in>set (take k us). budget_alerts u \<and> monthly_budget u > 0"
    using assms(4) by (auto dest: in_set_takeD)
  have pre: "\<forall>i<length (take k us). store_fate w (reads w + i) = None"
    using assms(2) len by simp
  have "budget_alerts_users st us n w =
          budget_alerts_users st (take k us @ us ! k # drop (Suc k) us) n w"
    using take_nth_drop [OF assms(1)] by simp
  also have "\<dots> = (Inl e,
      w\<lparr>reads := reads w + Suc k,
        outbox := outbox w @ stamp (mail_fate w) (length (outbox w))
                    (List.map_filter (budget_alert_for st) (take k us))\<rparr>)"
    unfolding budget_alerts_users_append budget_alerts_users_eq [OF pre sel]
    using assms(3) len
    by (simp add: get_total_monthly_cost_def user_subscriptions_def store_read_def)
  finally show ?thesis .
qed

lemma monthly_summaries_users_fail:
  assumes "k < length us" "\<forall>i<k. store_fate w (reads w + i) = None"
    and "store_fate w (reads w + k) = Some e"
    and "\<forall>u\<in>set us. monthly_summary u"
  shows "monthly_summaries_users st us n w =
     (Inl e,
      w\<lparr>ticks := ticks w + k, reads := reads w + Suc k,
        outbox := outbox w @ stamp (mail_fate w) (length (outbox w))
                    (List.map_filter (summary_for st) (take k us))\<rparr>)"
proof -
  have len: "length (take k us) = k" using assms(1) by simp
  have sel: "\<forall>u\<in>set (take k us). monthly_summary u"
    using assms(4) by (auto dest: in_set_takeD)
  have pre: "\<forall>i<length (take k us). store_fate w (reads w + i) = None"
    using assms(2) len by simp
  have "monthly_summaries_users st us n w =
          monthly_summaries_users st (take k us @ us ! k # drop (Suc k) us) n w"
    using take_nth_drop [OF assms(1)] by simp
  also have "\<dots> = (Inl e,
      w\<lparr>ticks := ticks w + k, reads := reads w + Suc k,
        outbox := outbox w @ stamp (mail_fate w) (length (outbox w))
                    (List.map_filter (summary_for st) (take k us))\<rparr>)"
    unfolding monthly_summaries_users_append monthly_summaries_users_eq [OF pre sel]
    using assms(3) len
    by (simp add: user_subscriptions_def store_read_def)
  finally show ?thesis .
qed

lemma reminders_users_fail:
  assumes "k < length us" "\<forall>i<k. store_fate w (reads w + i) = None"
    and "store_fate w (reads w + k) = Some e"
    and "\<forall>i. clock w i = now"
    and "\<forall>u\<in>set us. \<forall>s\<in>set (subscriptions_of st u).
           \<exists>nd. next_payment_date (billing_date s) now = Inr nd"
    and "\<forall>u\<in>set us. payment_reminders u"
  shows "\<exists>t. reminders_users st us n w =
     (Inl e,
      w\<lparr>ticks := ticks w + t, reads := reads w + Suc k,
        outbox := outbox w @ stamp (mail_fate w) (length (outbox w))
                    (reminders_among st (take k us) now)\<rparr>)"
proof -
  have len: "length (take k us) = k" using assms(1) by simp
  have sel: "\<forall>u\<in>set (take k us). payment_reminders u"
    and ok: "\<forall>u\<in>set (take k us). \<forall>s\<in>set (subscriptions_of st u).
               \<exists>nd. next_payment_date (billing_date s) now = Inr nd"
    using assms(5,6) by (auto dest: in_set_takeD)
  have pre: "\<forall>i<length (take k us). store_fate w (reads w + i) = None"
    using assms(2) len by simp
  from reminders_users_eq [OF assms(4) pre ok sel, of n] obtain t where
    t: "reminders_users st (take k us) n w =
     (Inr (n + delivered (stamp (mail_fate w) (length (outbox w))
                            (reminders_among st (take k us) now))),
      w\<lparr>ticks := ticks w + t, reads := reads w + length (take k us),
        outbox := outbox w @ stamp (mail_fate w) (length (outbox w))
                    (reminders_among st (take k us) now)\<rparr>)"
    by blast
  have "reminders_users st us n w =
          reminders_users st (take k us @ us ! k # drop (Suc k) us) n w"
    using take_nth_drop [OF assms(1)] by simp
  also have "\<dots> = (Inl e,
      w\<lparr>ticks := ticks w + t, reads := reads w + Suc k,
        outbox := outbox w @ stamp (mail_fate w) (length (outbox w))
                    (reminders_among st (take k us) now)\<rparr>)"
    unfolding reminders_users_append t
    using assms(3) len
    by (simp add: user_subscriptions_def store_read_def)
  finally show ?thesis by blast
qed

subsection \<open>The users a job selects\<close>

lemma alerts_due_selected:
  "List.map_filter (budget_alert_for st)
     (filter (\<lambda>u. budget_alerts u \<and> monthly_budget u > 0) us)
   = List.map_filter (budget_alert_for st) us"
  by (induction us) (simp_all add: budget_alert_for_def)

lemma summaries_due_selected:
  "List.map_filter (summary_for st) (filter monthly_summary us)
   = List.map_filter (summary_for st) us"
  by (induction us) (simp_all add: summary_for_def)


lemma reminders_among_selected:
  "reminders_among st (filter payment_reminders us) now = reminders_among st us now"
proof -
  have none: "\<not> payment_reminders u \<Longrightarrow> List.map_filter (\<lambda>s. reminder_for u s now) subs = []"
    for u :: "'a user" and subs :: "'a subscription list"
    by (induction subs) (simp_all add: reminder_for_def)
  show ?thesis
    by (induction us) (simp_all add: reminders_among_def none)
qed

subsection \<open>The jobs in closed form\<close>

lemma next_payment_date_defined:
  assumes "valid_datetime now" "1 \<le> d" "dt_year now < MAXYEAR"
  shows "\<exists>nd. next_payment_date d now = Inr nd"
  using assms by (cases rule: next_payment_date_cases) simp_all

lemma check_budget_alerts_eq:
  assumes "\<forall>i. store_fate w i = None"
  shows "check_budget_alerts st w =
     (Inr (delivered (stamp (mail_fate w) (length (outbox w)) (alerts_due st))),
      w\<lparr>ticks := Suc (ticks w),
        reads := Suc (reads w + length (filter (\<lambda>u. budget_alerts u \<and> monthly_budget u > 0) (users st))),
        outbox := outbox w @ stamp (mail_fate w) (length (outbox w)) (alerts_due st)\<rparr>)"
proof -
  let ?us = "filter (\<lambda>u. budget_alerts u \<and> monthly_budget u > 0) (users st)"
  let ?w1 = "w\<lparr>ticks := Suc (ticks w), reads := Suc (reads w)\<rparr>"
  have pre: "\<forall>i<length ?us. store_fate ?w1 (reads ?w1 + i) = None"
    using assms by simp
  have sel: "\<forall>u\<in>set ?us. budget_alerts u \<and> monthly_budget u > 0" by simp
  show ?thesis
    using assms budget_alerts_users_eq [OF pre sel, of st 0]
    by (simp add: check_budget_alerts_def datetime_now_def query_users_def store_read_def
          alerts_due_selected alerts_due_def)
qed

lemma send_all_monthly_summaries_eq:
  assumes "\<forall>i. store_fate w i = None"
  shows "send_all_monthly_summaries st w =
     (Inr (delivered (stamp (mail_fate w) (length (outbox w)) (summaries_due st))),
      w\<lparr>ticks := Suc (ticks w + length (filter monthly_summary (users st))),
        reads := Suc (reads w + length (filter monthly_summary (users st))),
        outbox := outbox w @ stamp (mail_fate w) (length (outbox w)) (summaries_due st)\<rparr>)"
proof -
  let ?us = "filter monthly_summary (users st)"
  let ?w1 = "w\<lparr>ticks := Suc (ticks w), reads := Suc (reads w)\<rparr>"
  have pre: "\<forall>i<length ?us. store_fate ?w1 (reads ?w1 + i) = None"
    using assms by simp
  have sel: "\<forall>u\<in>set ?us. monthly_summary u" by simp
  show ?thesis
    using assms monthly_summaries_users_eq [OF pre sel, of st 0]
    by (simp add: send_all_monthly_summaries_def datetime_now_def query_users_def store_read_def
          summaries_due_selected summaries_due_def)
qed

lemma check_payment_reminders_eq:
  assumes "\<forall>i. store_fate w i = None" "\<forall>i. clock w i = now" "valid_datetime now"
    and "dt_year now < MAXYEAR"
    and "\<forall>s\<in>set (subscriptions st). 1 \<le> billing_date s \<and> billing_date s \<le> 31"
  shows "\<exists>t. check_payment_reminders st w =
     (Inr (delivered (stamp (mail_fate w) (length (outbox w)) (reminders_due st now))),
      w\<lparr>ticks := ticks w + t,
        reads := Suc (reads w + length (filter payment_reminders (users st))),
        outbox := outbox w @ stamp (mail_fate w) (length (outbox w)) (reminders_due st now)\<rparr>)"
proof -
  let ?us = "filter payment_reminders (users st)"
  let ?w1 = "w\<lparr>ticks := Suc (ticks w), reads := Suc (reads w)\<rparr>"
  have c1: "\<forall>i. clock ?w1 i = now" using assms(2) by simp
  have pre: "\<forall>i<length ?us. store_fate ?w1 (reads ?w1 + i) = None"
    using assms(1) by simp
  have ok: "\<forall>u\<in>set ?us. \<forall>s\<in>set (subscriptions_of st u).
              \<exists>nd. next_payment_date (billing_date s) now = Inr nd"
    using assms(3,4,5) by (auto simp: subscriptions_of_def intro: next_payment_date_defined)
  have flags: "\<forall>u\<in>set ?us. payment_reminders u" by simp
  from reminders_users_eq [OF c1 pre ok flags, of 0] obtain t where
    t: "reminders_users st ?us 0 ?w1 =
     (Inr (0 + delivered (stamp (mail_fate ?w1) (length (outbox ?w1)) (reminders_among st ?us now))),
      ?w1\<lparr>ticks := ticks ?w1 + t, reads := reads ?w1 + length ?us,
        outbox := outbox ?w1 @ stamp (mail_fate ?w1) (length (outbox ?w1))
                    (reminders_among st ?us now)\<rparr>)"
    by blast
  show ?thesis
    apply (rule exI [of _ "Suc t"])
    using t assms(1)
    by (simp add: check_payment_reminders_def datetime_now_def query_users_def store_read_def
          reminders_among_selected reminders_due_def)
qed

lemma check_budget_alerts_fail:
  assumes "\<forall>i<k. store_fate w (reads w + i) = None"
    and "store_fate w (reads w + k) = Some e"
    and "k \<le> length (filter (\<lambda>u. budget_alerts u \<and> monthly_budget u > 0) (users st))"
  shows "check_budget_alerts st w =
     (Inl e,
      w\<lparr>ticks := Suc (ticks w), reads := reads w + Suc k,
        outbox := outbox w @ stamp (mail_fate w) (length (outbox w))
          (List.map_filter (budget_alert_for st)
             (take (k - 1) (filter (\<lambda>u. budget_alerts u \<and> monthly_budget u > 0) (users st))))\<rparr>)"
proof (cases k)
  case 0
  with assms(2) show ?thesis
    by (simp add: check_budget_alerts_def datetime_now_def query_users_def store_read_def)
next
  case (Suc j)
  let ?us = "filter (\<lambda>u. budget_alerts u \<and> monthly_budget u > 0) (users st)"
  let ?w1 = "w\<lparr>ticks := Suc (ticks w), reads := Suc (reads w)\<rparr>"
  from assms(1) Suc have ok: "store_fate w (reads w) = None"
    and rest: "\<forall>i<j. store_fate w (Suc (reads w + i)) = None"
    using reads_shift [of j w] by simp_all
  have j: "j < length ?us" using assms(3) Suc by simp
  have pre: "\<forall>i<j. store_fate ?w1 (reads ?w1 + i) = None" using rest by simp
  have bad: "store_fate ?w1 (reads ?w1 + j) = Some e" using assms(2) Suc by simp
  have sel: "\<forall>u\<in>set ?us. budget_alerts u \<and> monthly_budget u > 0" by simp
  show ?thesis
    using ok Suc budget_alerts_users_fail [OF j pre bad sel, of st 0]
    by (simp add: check_budget_alerts_def datetime_now_def query_users_def store_read_def)
qed

lemma send_all_monthly_summaries_fail:
  assumes "\<forall>i<k. store_fate w (reads w + i) = None"
    and "store_fate w (reads w + k) = Some e"
    and "k \<le> length (filter monthly_summary (users st))"
  shows "send_all_monthly_summaries st w =
     (Inl e,
      w\<lparr>ticks := Suc (ticks w + (k - 1)), reads := reads w + Suc k,
        outbox := outbox w @ stamp (mail_fate w) (length (outbox w))
          (List.map_filter (summary_for st) (take (k - 1) (filter monthly_summary (users st))))\<rparr>)"
proof (cases k)
  case 0
  with assms(2) show ?thesis
    by (simp add: send_all_monthly_summaries_def datetime_now_def query_users_def store_read_def)
next
  case (Suc j)
  let ?us = "filter monthly_summary (users st)"
  let ?w1 = "w\<lparr>ticks := Suc (ticks w), reads := Suc (reads w)\<rparr>"
  from assms(1) Suc have ok: "store_fate w (reads w) = None"
    and rest: "\<forall>i<j. store_fate w (Suc (reads w + i)) = None"
    using reads_shift [of j w] by simp_all
  have j: "j < length ?us" using assms(3) Suc by simp
  have pre: "\<forall>i<j. store_fate ?w1 (reads ?w1 + i) = None" using rest by simp
  have bad: "store_fate ?w1 (reads ?w1 + j) = Some e" using assms(2) Suc by simp
  have sel: "\<forall>u\<in>set ?us. monthly_summary u" by simp
  show ?thesis
    using ok Suc monthly_summaries_users_fail [OF j pre bad sel, of st 0]
    by (simp add: send_all_monthly_summaries_def datetime_now_def query_users_def store_read_def)
qed

lemma check_payment_reminders_fail:
  assumes "\<forall>i<k. store_fate w (reads w + i) = None"
    and "store_fate w (reads w + k) = Some e"
    and "k \<le> length (filter payment_reminders (users st))"
    and "\<forall>i. clock w i = now" "valid_datetime now" "dt_year now < MAXYEAR"
    and "\<forall>s\<in>set (subscriptions st). 1 \<le> billing_date s \<and> billing_date s \<le> 31"
  shows "\<exists>t. check_payment_reminders st w =
     (Inl e,
      w\<lparr>ticks := ticks w + t, reads := reads w + Suc k,
        outbox := outbox w @ stamp (mail_fate w) (length (outbox w))
          (reminders_among st (take (k - 1) (filter payment_reminders (users st))) now)\<rparr>)"
proof (cases k)
  case 0
  with assms(2) show ?thesis
    by (intro exI [of _ "Suc 0"])
       (simp add: check_payment_reminders_def datetime_now_def query_users_def store_read_def
          reminders_among_def)
next
  case (Suc j)
  let ?us = "filter payment_reminders (users st)"
  let ?w1 = "w\<lparr>ticks := Suc (ticks w), reads := Suc (reads w)\<rparr>"
  from assms(1) Suc have ok: "store_fate w (reads w) = None"
    and rest: "\<forall>i<j. store_fate w (Suc (reads w + i)) = None"
    using reads_shift [of j w] by simp_all
  have j: "j < length ?us" using assms(3) Suc by simp
  have pre: "\<forall>i<j. store_fate ?w1 (reads ?w1 + i) = None" using rest by simp
  have bad: "store_fate ?w1 (reads ?w1 + j) = Some e" using assms(2) Suc by simp
  have c1: "\<forall>i. clock ?w1 i = now" using assms(4) by simp
  have dates: "\<forall>u\<in>set ?us. \<forall>s\<in>set (subscriptions_of st u).
              \<exists>nd. next_payment_date (billing_date s) now = Inr nd"
    using assms(5,6,7) by (auto simp: subscriptions_of_def intro: next_payment_date_defined)
  have flags: "\<forall>u\<in>set ?us. payment_reminders u" by simp
  from reminders_users_fail [OF j pre bad c1 dates flags, of 0] obtain t where
    t: "reminders_users st ?us 0 ?w1 =
     (Inl e,
      ?w1\<lparr>ticks := ticks ?w1 + t, reads := reads ?w1 + Suc j,
        outbox := outbox ?w1 @ stamp (mail_fate ?w1) (length (outbox ?w1))
                    (reminders_among st (take j ?us) now)\<rparr>)"
    by blast
  show ?thesis
    apply (rule exI [of _ "Suc t"])
    using ok Suc t
    by (simp add: check_payment_reminders_def datetime_now_def query_users_def store_read_def)
qed


lemma get_total_monthly_cost_eq:
  assumes "store_fate w (reads w) = None"
  shows "get_total_monthly_cost st u w =
           (Inr (total_monthly_cost st u), w\<lparr>reads := Suc (reads w)\<rparr>)"
  using assms
  by (simp add: get_total_monthly_cost_def user_subscriptions_def store_read_def py_sum_prices)

lemma example_summaries_due:
  "summaries_due example_store =
       [MonthlySummary ''alice@example.org'' 120 2 [video, music],
        MonthlySummary ''bob@example.org'' 30 1 [cloud],
        MonthlySummary ''carol@example.org'' 0 0 []]"
  by (simp add: example_defs summaries_due_def summary_for_def total_monthly_cost_def
        subscriptions_of_def)

section \<open>The claims\<close>

text \<open>
  The statements about dates take \<open>now\<close> to be a value a \<^verbatim>\<open>datetime\<close> can hold and a
  billing day in 1..31, which \<^verbatim>\<open>add_subscription\<close> enforces. For \<open>now\<close> in a year
  before \<open>MAXYEAR\<close> the resolved date always exists; in December 9999 the month after
  has no \<^verbatim>\<open>datetime\<close> and the computation raises (\<open>next_payment_date_past_maxyear\<close>).
  The statements about jobs take a clock that reads the same \<open>now\<close> throughout the run,
  and speak of the messages handed to the transport: the entries a run adds to the
  outbox, each with whether the transport delivered it.
\<close>

text \<open>
  C1. The claim: for every billing day in 1..31 and every \<open>now\<close> the next payment date
  is strictly after \<open>now\<close> and \<open>days_until\<close> is not negative. On the last day of a
  month that is shorter than the billing day the code does otherwise: at 09:00 on
  2023-02-28 with billing day 31, \<open>now.day < billing_date\<close> holds, so the current month
  is kept, the day is clamped to 28, and the date returned is midnight of today, nine
  hours before \<open>now\<close>; its distance in whole days is -1. (What holds for every input
  is \<open>days_until_payment_bounds\<close>: the result lies between -1 and 31 and is negative on
  exactly these days.)
\<close>

theorem days_until_negative_on_clamped_today:
  "next_payment_date 31 (at_nine 2023 2 28) = Inr (midnight 2023 2 28) \<and>
   fst (get_days_until_payment 31 (frozen_world (at_nine 2023 2 28) store_up always_delivers))
     = Inr (- 1)"
  by (simp add: get_days_until_payment_def datetime_now_def date_defs example_defs)

text \<open>
  C2. For every billing day \<open>d\<close> in 1..31 and every \<open>now\<close>, the next payment date lies
  in the month of \<open>now\<close> exactly when \<open>now.day < d\<close>; otherwise (so also when
  \<open>now.day = d\<close>) it lies in the month after, January of the following year when
  \<open>now\<close> is in December. Counting months as \<open>12 * year + month\<close>, the result is 0 or 1
  month from \<open>now\<close>.
\<close>

theorem next_payment_month_resolution:
  assumes "valid_datetime now" "1 \<le> d" "d \<le> 31" "dt_year now < MAXYEAR"
  shows "\<exists>nd. next_payment_date d now = Inr nd \<and>
           ((dt_year nd = dt_year now \<and> dt_month nd = dt_month now) \<longleftrightarrow> dt_day now < d) \<and>
           (\<not> dt_day now < d \<longrightarrow>
              (if dt_month now = 12 then dt_year nd = dt_year now + 1 \<and> dt_month nd = 1
               else dt_year nd = dt_year now \<and> dt_month nd = dt_month now + 1)) \<and>
           (12 * dt_year nd + dt_month nd) - (12 * dt_year now + dt_month now)
              = (if dt_day now < d then 0 else 1)"
  using assms(1,2,4)
  by (cases rule: next_payment_date_cases) (auto simp: midnight_def)

theorem next_payment_month_resolution_witness:
  "next_payment_date 10 (at_nine 2024 12 15) = Inr (midnight 2025 1 10) \<and>
   next_payment_date 15 (at_nine 2024 1 15) = Inr (midnight 2024 2 15) \<and>
   next_payment_date 15 (at_nine 2024 1 10) = Inr (midnight 2024 1 15)"
proof -
  have h: "valid_datetime (at_nine 2024 12 15)" "valid_datetime (at_nine 2024 1 15)"
    "valid_datetime (at_nine 2024 1 10)"
    "dt_year (at_nine 2024 12 15) < MAXYEAR" "dt_year (at_nine 2024 1 15) < MAXYEAR"
    "dt_year (at_nine 2024 1 10) < MAXYEAR"
    by (simp_all add: at_nine_def date_defs)
  have d: "(1::int) \<le> 10" "(10::int) \<le> 31" "(1::int) \<le> 15" "(15::int) \<le> 31"
    by simp_all
  from next_payment_month_resolution [OF h(1) d(1,2) h(4)]
    next_payment_month_resolution [OF h(2) d(3,4) h(5)]
    next_payment_month_resolution [OF h(3) d(3,4) h(6)]
  show ?thesis
    by (simp add: at_nine_def date_defs)
qed

text \<open>
  C3. For every billing day \<open>d\<close> in 1..31, the day of the resolved date is
  \<open>min d\<close> (the number of days of the resolved month), where that number is the exact
  calendar length: 28 or 29 for February by the leap-year rule, 30 for April, June,
  September and November, 31 otherwise. With \<open>d = 31\<close> and February resolved the day is
  29 in a leap year and 28 otherwise; the witness evaluates 2024-02-15 and 2023-02-15.
\<close>

theorem next_payment_day_clamped:
  assumes "valid_datetime now" "1 \<le> d" "d \<le> 31" "dt_year now < MAXYEAR"
  shows "\<exists>nd. next_payment_date d now = Inr nd \<and>
           dt_day nd = min d (days_in_month (dt_year nd) (dt_month nd)) \<and>
           days_in_month (dt_year nd) (dt_month nd) =
             (if dt_month nd = 2 then (if isleap (dt_year nd) then 29 else 28)
              else if dt_month nd = 4 \<or> dt_month nd = 6 \<or> dt_month nd = 9 \<or> dt_month nd = 11
              then 30 else 31) \<and>
           (d = 31 \<and> dt_month nd = 2 \<longrightarrow> dt_day nd = (if isleap (dt_year nd) then 29 else 28))"
proof -
  have m: "1 \<le> dt_month now" "dt_month now \<le> 12"
    using assms(1) by (simp_all add: valid_datetime_def)
  from assms(1,2,4) show ?thesis
  proof (cases rule: next_payment_date_cases)
    case this_month
    then show ?thesis
      using days_in_month_calendar [OF m, of "dt_year now"] assms(3)
      by (simp add: midnight_def)
  next
    case next_month
    with m have m': "1 \<le> dt_month now + 1" "dt_month now + 1 \<le> 12" by simp_all
    from next_month show ?thesis
      using days_in_month_calendar [OF m', of "dt_year now"] assms(3)
      by (simp add: midnight_def)
  next
    case january
    then show ?thesis
      using days_in_month_calendar [of 1 "dt_year now + 1"] assms(3)
      by (simp add: midnight_def)
  qed
qed

theorem next_payment_day_clamped_witness:
  "next_payment_date 31 (at_nine 2024 2 15) = Inr (midnight 2024 2 29) \<and>
   next_payment_date 31 (at_nine 2023 2 15) = Inr (midnight 2023 2 28) \<and>
   isleap 2024 \<and> \<not> isleap 2023"
proof -
  have h: "valid_datetime (at_nine 2024 2 15)" "valid_datetime (at_nine 2023 2 15)"
    "dt_year (at_nine 2024 2 15) < MAXYEAR" "dt_year (at_nine 2023 2 15) < MAXYEAR"
    by (simp_all add: at_nine_def date_defs)
  have d: "(1::int) \<le> 31" "(31::int) \<le> 31"
    by simp_all
  from next_payment_day_clamped [OF h(1) d h(3)] next_payment_day_clamped [OF h(2) d h(4)]
  show ?thesis
    by (simp add: at_nine_def date_defs)
qed

text \<open>
  C4. The payment-reminder check hands a reminder to the transport for a subscription
  exactly when the owner has \<open>payment_reminders\<close> and the computed \<open>days_until\<close> is 3:
  the messages of a run are \<open>reminders_due\<close>, the list over all users and their
  subscriptions of the decisions \<open>reminder_for\<close>, and \<open>reminder_for\<close> is a message
  exactly under that condition (none for any other value of \<open>days_until\<close>, none for a
  user without \<open>payment_reminders\<close>).
\<close>

theorem payment_reminder_trigger:
  assumes "\<forall>i. store_fate w i = None" "\<forall>i. clock w i = now" "valid_datetime now"
    and "dt_year now < MAXYEAR"
    and "\<forall>s\<in>set (subscriptions st). 1 \<le> billing_date s \<and> billing_date s \<le> 31"
  shows "\<exists>n w' new. check_payment_reminders st w = (Inr n, w') \<and>
           outbox w' = outbox w @ new \<and> map fst new = reminders_due st now \<and>
           (\<forall>(u::'a user) s. reminder_for u s now \<noteq> None \<longleftrightarrow>
                    payment_reminders u \<and> days_until_payment (billing_date s) now = Inr 3) \<and>
           (\<forall>(u::'a user) s. days_until_payment (billing_date s) now \<noteq> Inr 3 \<longrightarrow>
                    reminder_for u s now = None) \<and>
           (\<forall>(u::'a user) s. \<not> payment_reminders u \<longrightarrow> reminder_for u s now = None)"
proof -
  from check_payment_reminders_eq [OF assms] obtain t where
    "check_payment_reminders st w =
     (Inr (delivered (stamp (mail_fate w) (length (outbox w)) (reminders_due st now))),
      w\<lparr>ticks := ticks w + t,
        reads := Suc (reads w + length (filter payment_reminders (users st))),
        outbox := outbox w @ stamp (mail_fate w) (length (outbox w)) (reminders_due st now)\<rparr>)"
    by blast
  then show ?thesis
    by (simp add: map_fst_stamp reminder_for_def)
qed

theorem payment_reminder_trigger_witness:
  "\<exists>n w' new.
     check_payment_reminders example_store
       (frozen_world (at_nine 2024 1 12) store_up always_delivers) = (Inr n, w') \<and>
     outbox w' = new \<and>
     map fst new =
       [PaymentReminder ''alice@example.org'' ''video'' 3 70 (midnight 2024 1 16)]"
proof -
  let ?w = "frozen_world (at_nine 2024 1 12) store_up always_delivers"
  have h: "\<forall>i. store_fate ?w i = None" "\<forall>i. clock ?w i = at_nine 2024 1 12"
    "valid_datetime (at_nine 2024 1 12)" "dt_year (at_nine 2024 1 12) < MAXYEAR"
    "\<forall>s\<in>set (subscriptions example_store). 1 \<le> billing_date s \<and> billing_date s \<le> 31"
    by (simp_all add: example_defs date_defs)
  from payment_reminder_trigger [OF h] obtain n w' new where
    r: "check_payment_reminders example_store ?w = (Inr n, w')"
      "outbox w' = outbox ?w @ new" "map fst new = reminders_due example_store (at_nine 2024 1 12)"
    by blast
  have "reminders_due example_store (at_nine 2024 1 12) =
          [PaymentReminder ''alice@example.org'' ''video'' 3 70 (midnight 2024 1 16)]"
    by (simp add: example_defs date_defs reminders_due_def reminders_among_def reminder_for_def
          subscriptions_of_def)
  with r show ?thesis by (simp add: frozen_world_def)
qed







text \<open>
  C7. A sending function never leaves by an exception: for every input it returns a
  boolean, and it returns \<^verbatim>\<open>False\<close> when the transport raises. In a job whose store
  reads succeed, the messages handed to the transport are all those due, whatever the
  transport did with the earlier ones (\<open>map fst (stamp fate i ms) = ms\<close>), and the number
  the job reports is the number of entries that were delivered. In the example the first
  of three sends fails: all three are attempted and the job reports 2.
\<close>

theorem send_never_raises:
  fixes st :: "'a::{zero,plus,minus,ord} store"
  shows
  "(\<exists>b w'. send_payment_reminder u s d w = (Inr b, w')) \<and>
   (\<exists>b w'. send_budget_alert u t l ov w = (Inr b, w')) \<and>
   (\<exists>b w'. send_monthly_summary u t c subs w = (Inr b, w')) \<and>
   ((\<forall>m. mail_fate w (length (outbox w)) m \<noteq> None) \<longrightarrow>
      fst (send_payment_reminder u s d w) = Inr False \<and>
      fst (send_budget_alert u t l ov w) = Inr False \<and>
      fst (send_monthly_summary u t c subs w) = Inr False) \<and>
   ((\<forall>i. store_fate w i = None) \<and> (\<forall>i. clock w i = now) \<and> valid_datetime now \<and>
    dt_year now < MAXYEAR \<and>
    (\<forall>s\<in>set (subscriptions st). 1 \<le> billing_date s \<and> billing_date s \<le> 31) \<longrightarrow>
      (\<exists>w'. check_payment_reminders st w =
         (Inr (delivered (stamp (mail_fate w) (length (outbox w)) (reminders_due st now))), w') \<and>
         outbox w' = outbox w @ stamp (mail_fate w) (length (outbox w)) (reminders_due st now))) \<and>
   ((\<forall>i. store_fate w i = None) \<longrightarrow>
      (\<exists>w'. check_budget_alerts st w =
         (Inr (delivered (stamp (mail_fate w) (length (outbox w)) (alerts_due st))), w') \<and>
         outbox w' = outbox w @ stamp (mail_fate w) (length (outbox w)) (alerts_due st)) \<and>
      (\<exists>w'. send_all_monthly_summaries st w =
         (Inr (delivered (stamp (mail_fate w) (length (outbox w)) (summaries_due st))), w') \<and>
         outbox w' = outbox w @ stamp (mail_fate w) (length (outbox w)) (summaries_due st))) \<and>
   (\<forall>fate i (ms :: 'a message list). map fst (stamp fate i ms) = ms \<and>
      delivered (stamp fate i ms) = int (length (filter snd (stamp fate i ms))))"
proof -
  have a: "\<exists>b w'. send_payment_reminder u s d w = (Inr b, w')"
    by (cases "next_payment_date (billing_date s) (clock w (ticks w))")
       (auto simp: send_payment_reminder_eq)
  have b: "\<exists>b w'. send_budget_alert u t l ov w = (Inr b, w')"
    by (simp add: send_budget_alert_eq)
  have c: "\<exists>b w'. send_monthly_summary u t c subs w = (Inr b, w')"
    by (simp add: send_monthly_summary_eq)
  have f: "(\<forall>m. mail_fate w (length (outbox w)) m \<noteq> None) \<longrightarrow>
      fst (send_payment_reminder u s d w) = Inr False \<and>
      fst (send_budget_alert u t l ov w) = Inr False \<and>
      fst (send_monthly_summary u t c subs w) = Inr False"
    by (simp add: send_payment_reminder_eq send_budget_alert_eq send_monthly_summary_eq
          split: sum.splits)
  have r: "(\<forall>i. store_fate w i = None) \<and> (\<forall>i. clock w i = now) \<and> valid_datetime now \<and>
    dt_year now < MAXYEAR \<and>
    (\<forall>s\<in>set (subscriptions st). 1 \<le> billing_date s \<and> billing_date s \<le> 31) \<longrightarrow>
      (\<exists>w'. check_payment_reminders st w =
         (Inr (delivered (stamp (mail_fate w) (length (outbox w)) (reminders_due st now))), w') \<and>
         outbox w' = outbox w @ stamp (mail_fate w) (length (outbox w)) (reminders_due st now))"
  proof
    assume h: "(\<forall>i. store_fate w i = None) \<and> (\<forall>i. clock w i = now) \<and> valid_datetime now \<and>
      dt_year now < MAXYEAR \<and>
      (\<forall>s\<in>set (subscriptions st). 1 \<le> billing_date s \<and> billing_date s \<le> 31)"
    then have h1: "\<forall>i. store_fate w i = None" and h2: "\<forall>i. clock w i = now"
      and h3: "valid_datetime now" and h4: "dt_year now < MAXYEAR"
      and h5: "\<forall>s\<in>set (subscriptions st). 1 \<le> billing_date s \<and> billing_date s \<le> 31"
      by simp_all
    from check_payment_reminders_eq [OF h1 h2 h3 h4 h5] obtain k where
      "check_payment_reminders st w =
       (Inr (delivered (stamp (mail_fate w) (length (outbox w)) (reminders_due st now))),
        w\<lparr>ticks := ticks w + k,
          reads := Suc (reads w + length (filter payment_reminders (users st))),
          outbox := outbox w @ stamp (mail_fate w) (length (outbox w)) (reminders_due st now)\<rparr>)"
      by (elim exE)
    then show "\<exists>w'. check_payment_reminders st w =
         (Inr (delivered (stamp (mail_fate w) (length (outbox w)) (reminders_due st now))), w') \<and>
         outbox w' = outbox w @ stamp (mail_fate w) (length (outbox w)) (reminders_due st now)"
      by simp
  qed
  have j: "(\<forall>i. store_fate w i = None) \<longrightarrow>
      (\<exists>w'. check_budget_alerts st w =
         (Inr (delivered (stamp (mail_fate w) (length (outbox w)) (alerts_due st))), w') \<and>
         outbox w' = outbox w @ stamp (mail_fate w) (length (outbox w)) (alerts_due st)) \<and>
      (\<exists>w'. send_all_monthly_summaries st w =
         (Inr (delivered (stamp (mail_fate w) (length (outbox w)) (summaries_due st))), w') \<and>
         outbox w' = outbox w @ stamp (mail_fate w) (length (outbox w)) (summaries_due st))"
  proof
    assume h: "\<forall>i. store_fate w i = None"
    show "(\<exists>w'. check_budget_alerts st w =
         (Inr (delivered (stamp (mail_fate w) (length (outbox w)) (alerts_due st))), w') \<and>
         outbox w' = outbox w @ stamp (mail_fate w) (length (outbox w)) (alerts_due st)) \<and>
      (\<exists>w'. send_all_monthly_summaries st w =
         (Inr (delivered (stamp (mail_fate w) (length (outbox w)) (summaries_due st))), w') \<and>
         outbox w' = outbox w @ stamp (mail_fate w) (length (outbox w)) (summaries_due st))"
      by (simp add: check_budget_alerts_eq [OF h] send_all_monthly_summaries_eq [OF h])
  qed
  have g: "\<forall>fate i (ms :: 'a message list). map fst (stamp fate i ms) = ms \<and>
      delivered (stamp fate i ms) = int (length (filter snd (stamp fate i ms)))"
    by (simp add: map_fst_stamp delivered_def)
  from a b c f r j g show ?thesis by (intro conjI)
qed

theorem send_never_raises_witness:
  "fst (send_budget_alert alice 120 100 20
          (frozen_world (at_nine 2024 1 12) store_up first_send_fails)) = Inr False \<and>
   (\<exists>w'. send_all_monthly_summaries example_store
            (frozen_world (at_nine 2024 1 1) store_up first_send_fails) = (Inr 2, w') \<and>
          outbox w' =
            [(MonthlySummary ''alice@example.org'' 120 2 [video, music], False),
             (MonthlySummary ''bob@example.org'' 30 1 [cloud], True),
             (MonthlySummary ''carol@example.org'' 0 0 [], True)])"
proof -
  let ?w = "frozen_world (at_nine 2024 1 12) store_up first_send_fails"
  let ?w1 = "frozen_world (at_nine 2024 1 1) store_up first_send_fails"
  have fails: "\<forall>m. mail_fate ?w (length (outbox ?w)) m \<noteq> None"
    by (simp add: frozen_world_def first_send_fails_def)
  have h: "\<forall>i. store_fate ?w1 i = None"
    by (simp add: frozen_world_def store_up_def)
  note t = send_never_raises [of alice video 3 ?w 120 100 20 0 "[]" "at_nine 2024 1 12" example_store]
  note t1 = send_never_raises [of alice video 3 ?w1 120 100 20 0 "[]" "at_nine 2024 1 1" example_store]
  from t have "(\<forall>m. mail_fate ?w (length (outbox ?w)) m \<noteq> None) \<longrightarrow>
      fst (send_payment_reminder alice video 3 ?w) = Inr False \<and>
      fst (send_budget_alert alice 120 100 20 ?w) = Inr False \<and>
      fst (send_monthly_summary alice 120 0 [] ?w) = Inr False"
    by (elim conjE)
  with fails have first: "fst (send_budget_alert alice 120 100 20 ?w) = Inr False"
    by simp
  from t1 have "(\<forall>i. store_fate ?w1 i = None) \<longrightarrow>
      (\<exists>w'. check_budget_alerts example_store ?w1 =
         (Inr (delivered (stamp (mail_fate ?w1) (length (outbox ?w1)) (alerts_due example_store))), w') \<and>
         outbox w' = outbox ?w1 @ stamp (mail_fate ?w1) (length (outbox ?w1)) (alerts_due example_store)) \<and>
      (\<exists>w'. send_all_monthly_summaries example_store ?w1 =
         (Inr (delivered (stamp (mail_fate ?w1) (length (outbox ?w1)) (summaries_due example_store))), w') \<and>
         outbox w' = outbox ?w1 @ stamp (mail_fate ?w1) (length (outbox ?w1)) (summaries_due example_store))"
    by (elim conjE)
  with h obtain w' where
    run: "send_all_monthly_summaries example_store ?w1 =
       (Inr (delivered (stamp (mail_fate ?w1) (length (outbox ?w1)) (summaries_due example_store))), w')"
    and box: "outbox w' = outbox ?w1 @ stamp (mail_fate ?w1) (length (outbox ?w1)) (summaries_due example_store)"
    by blast
  have ev: "stamp (mail_fate ?w1) (length (outbox ?w1)) (summaries_due example_store) =
            [(MonthlySummary ''alice@example.org'' 120 2 [video, music], False),
             (MonthlySummary ''bob@example.org'' 30 1 [cloud], True),
             (MonthlySummary ''carol@example.org'' 0 0 [], True)]"
    unfolding example_summaries_due by (simp add: frozen_world_def first_send_fails_def)
  have two: "delivered
            [(MonthlySummary ''alice@example.org'' 120 2 [video, music], False),
             (MonthlySummary ''bob@example.org'' 30 1 [cloud], True),
             (MonthlySummary ''carol@example.org'' 0 0 [], True)] = 2"
    by (simp add: delivered_def)
  have ob: "outbox ?w1 = []" by (simp add: frozen_world_def)
  from run have r2: "send_all_monthly_summaries example_store ?w1 = (Inr 2, w')"
    unfolding ev two .
  from box have "outbox w' = outbox ?w1 @
            [(MonthlySummary ''alice@example.org'' 120 2 [video, music], False),
             (MonthlySummary ''bob@example.org'' 30 1 [cloud], True),
             (MonthlySummary ''carol@example.org'' 0 0 [], True)]"
    unfolding ev .
  then have b2: "outbox w' =
            [(MonthlySummary ''alice@example.org'' 120 2 [video, music], False),
             (MonthlySummary ''bob@example.org'' 30 1 [cloud], True),
             (MonthlySummary ''carol@example.org'' 0 0 [], True)]"
    unfolding ob append_Nil .
  from r2 b2 have "send_all_monthly_summaries example_store ?w1 = (Inr 2, w') \<and>
          outbox w' =
            [(MonthlySummary ''alice@example.org'' 120 2 [video, music], False),
             (MonthlySummary ''bob@example.org'' 30 1 [cloud], True),
             (MonthlySummary ''carol@example.org'' 0 0 [], True)]"
    by (intro conjI)
  then have "\<exists>w'. send_all_monthly_summaries example_store ?w1 = (Inr 2, w') \<and>
          outbox w' =
            [(MonthlySummary ''alice@example.org'' 120 2 [video, music], False),
             (MonthlySummary ''bob@example.org'' 30 1 [cloud], True),
             (MonthlySummary ''carol@example.org'' 0 0 [], True)]"
    by (intro exI [of _ w'])
  with first show ?thesis by (intro conjI)
qed

text \<open>
  C8. The claim: if a read of the record store raises, the job catches and logs the
  error itself. No job has a handler: the counterexample runs
  \<^verbatim>\<open>check_payment_reminders\<close> on a store whose reads raise, and the exception leaves
  the job. What holds for each of the three jobs: the exception of a store read leaves
  the job function, whichever read it is. Counting the reads from the start of the job,
  read 0 is the query for the users and read \<open>k\<close>, for \<open>k\<close> from 1 on, is the load of
  the subscriptions of the \<open>k\<close>-th selected user. If read \<open>k\<close> is the first to raise,
  the job ends with that exception; the messages of the \<open>k - 1\<close> users before have been
  handed to the transport and stay sent, and no later user is looked at. For read 0
  nothing has been sent. For \<^verbatim>\<open>check_payment_reminders\<close> and a later read this is
  stated for a clock that stands at a valid \<open>now\<close> and billing days in 1..31, where no
  other exception arises first. In the example the third read raises: the message for
  Alice is in the outbox when the exception leaves the job.
\<close>

theorem store_error_not_caught:
  "fst (check_payment_reminders example_store
          (frozen_world (at_nine 2024 1 12) store_down always_delivers)) = Inl StoreError"
  by (simp add: check_payment_reminders_def datetime_now_def query_users_def store_read_def
        frozen_world_def store_down_def)

theorem store_error_leaves_job:
  fixes st :: "'a::{zero,plus,minus,ord} store"
  assumes "\<forall>i<k. store_fate w (reads w + i) = None"
    and "store_fate w (reads w + k) = Some e"
  shows "(k = 0 \<longrightarrow>
            check_payment_reminders st w =
              (Inl e, w\<lparr>ticks := Suc (ticks w), reads := Suc (reads w)\<rparr>) \<and>
            check_budget_alerts st w =
              (Inl e, w\<lparr>ticks := Suc (ticks w), reads := Suc (reads w)\<rparr>) \<and>
            send_all_monthly_summaries st w =
              (Inl e, w\<lparr>ticks := Suc (ticks w), reads := Suc (reads w)\<rparr>)) \<and>
         (k \<le> length (filter (\<lambda>u. budget_alerts u \<and> monthly_budget u > 0) (users st)) \<longrightarrow>
            (\<exists>w'. check_budget_alerts st w = (Inl e, w') \<and>
               outbox w' = outbox w @ stamp (mail_fate w) (length (outbox w))
                 (List.map_filter (budget_alert_for st)
                    (take (k - 1)
                       (filter (\<lambda>u. budget_alerts u \<and> monthly_budget u > 0) (users st)))))) \<and>
         (k \<le> length (filter monthly_summary (users st)) \<longrightarrow>
            (\<exists>w'. send_all_monthly_summaries st w = (Inl e, w') \<and>
               outbox w' = outbox w @ stamp (mail_fate w) (length (outbox w))
                 (List.map_filter (summary_for st)
                    (take (k - 1) (filter monthly_summary (users st)))))) \<and>
         (k \<le> length (filter payment_reminders (users st)) \<and>
          (\<forall>i. clock w i = now) \<and> valid_datetime now \<and> dt_year now < MAXYEAR \<and>
          (\<forall>s\<in>set (subscriptions st). 1 \<le> billing_date s \<and> billing_date s \<le> 31) \<longrightarrow>
            (\<exists>w'. check_payment_reminders st w = (Inl e, w') \<and>
               outbox w' = outbox w @ stamp (mail_fate w) (length (outbox w))
                 (reminders_among st (take (k - 1) (filter payment_reminders (users st))) now)))"
proof -
  have first: "k = 0 \<longrightarrow>
            check_payment_reminders st w =
              (Inl e, w\<lparr>ticks := Suc (ticks w), reads := Suc (reads w)\<rparr>) \<and>
            check_budget_alerts st w =
              (Inl e, w\<lparr>ticks := Suc (ticks w), reads := Suc (reads w)\<rparr>) \<and>
            send_all_monthly_summaries st w =
              (Inl e, w\<lparr>ticks := Suc (ticks w), reads := Suc (reads w)\<rparr>)"
  proof
    assume "k = 0"
    with assms(2) have bad: "store_fate w (reads w) = Some e" by simp
    have r: "check_payment_reminders st w =
              (Inl e, w\<lparr>ticks := Suc (ticks w), reads := Suc (reads w)\<rparr>)"
      using bad
      by (simp add: check_payment_reminders_def datetime_now_def query_users_def store_read_def)
    have b: "check_budget_alerts st w =
              (Inl e, w\<lparr>ticks := Suc (ticks w), reads := Suc (reads w)\<rparr>)"
      using bad
      by (simp add: check_budget_alerts_def datetime_now_def query_users_def store_read_def)
    have s: "send_all_monthly_summaries st w =
              (Inl e, w\<lparr>ticks := Suc (ticks w), reads := Suc (reads w)\<rparr>)"
      using bad
      by (simp add: send_all_monthly_summaries_def datetime_now_def query_users_def
            store_read_def)
    from r b s show "check_payment_reminders st w =
              (Inl e, w\<lparr>ticks := Suc (ticks w), reads := Suc (reads w)\<rparr>) \<and>
            check_budget_alerts st w =
              (Inl e, w\<lparr>ticks := Suc (ticks w), reads := Suc (reads w)\<rparr>) \<and>
            send_all_monthly_summaries st w =
              (Inl e, w\<lparr>ticks := Suc (ticks w), reads := Suc (reads w)\<rparr>)"
      by (intro conjI)
  qed
  have alerts: "k \<le> length (filter (\<lambda>u. budget_alerts u \<and> monthly_budget u > 0) (users st)) \<longrightarrow>
            (\<exists>w'. check_budget_alerts st w = (Inl e, w') \<and>
               outbox w' = outbox w @ stamp (mail_fate w) (length (outbox w))
                 (List.map_filter (budget_alert_for st)
                    (take (k - 1)
                       (filter (\<lambda>u. budget_alerts u \<and> monthly_budget u > 0) (users st)))))"
  proof
    assume len: "k \<le> length (filter (\<lambda>u. budget_alerts u \<and> monthly_budget u > 0) (users st))"
    show "\<exists>w'. check_budget_alerts st w = (Inl e, w') \<and>
               outbox w' = outbox w @ stamp (mail_fate w) (length (outbox w))
                 (List.map_filter (budget_alert_for st)
                    (take (k - 1)
                       (filter (\<lambda>u. budget_alerts u \<and> monthly_budget u > 0) (users st))))"
      by (simp add: check_budget_alerts_fail [OF assms(1) assms(2) len])
  qed
  have summaries: "k \<le> length (filter monthly_summary (users st)) \<longrightarrow>
            (\<exists>w'. send_all_monthly_summaries st w = (Inl e, w') \<and>
               outbox w' = outbox w @ stamp (mail_fate w) (length (outbox w))
                 (List.map_filter (summary_for st)
                    (take (k - 1) (filter monthly_summary (users st)))))"
  proof
    assume len: "k \<le> length (filter monthly_summary (users st))"
    show "\<exists>w'. send_all_monthly_summaries st w = (Inl e, w') \<and>
               outbox w' = outbox w @ stamp (mail_fate w) (length (outbox w))
                 (List.map_filter (summary_for st)
                    (take (k - 1) (filter monthly_summary (users st))))"
      by (simp add: send_all_monthly_summaries_fail [OF assms(1) assms(2) len])
  qed
  have reminders: "k \<le> length (filter payment_reminders (users st)) \<and>
          (\<forall>i. clock w i = now) \<and> valid_datetime now \<and> dt_year now < MAXYEAR \<and>
          (\<forall>s\<in>set (subscriptions st). 1 \<le> billing_date s \<and> billing_date s \<le> 31) \<longrightarrow>
            (\<exists>w'. check_payment_reminders st w = (Inl e, w') \<and>
               outbox w' = outbox w @ stamp (mail_fate w) (length (outbox w))
                 (reminders_among st (take (k - 1) (filter payment_reminders (users st))) now))"
  proof
    assume h: "k \<le> length (filter payment_reminders (users st)) \<and>
          (\<forall>i. clock w i = now) \<and> valid_datetime now \<and> dt_year now < MAXYEAR \<and>
          (\<forall>s\<in>set (subscriptions st). 1 \<le> billing_date s \<and> billing_date s \<le> 31)"
    then have len: "k \<le> length (filter payment_reminders (users st))"
      and h2: "\<forall>i. clock w i = now" and h3: "valid_datetime now" and h4: "dt_year now < MAXYEAR"
      and h5: "\<forall>s\<in>set (subscriptions st). 1 \<le> billing_date s \<and> billing_date s \<le> 31"
      by simp_all
    from check_payment_reminders_fail [OF assms(1) assms(2) len h2 h3 h4 h5] obtain t where
      "check_payment_reminders st w =
         (Inl e,
          w\<lparr>ticks := ticks w + t, reads := reads w + Suc k,
            outbox := outbox w @ stamp (mail_fate w) (length (outbox w))
              (reminders_among st (take (k - 1) (filter payment_reminders (users st))) now)\<rparr>)"
      by (elim exE)
    then show "\<exists>w'. check_payment_reminders st w = (Inl e, w') \<and>
               outbox w' = outbox w @ stamp (mail_fate w) (length (outbox w))
                 (reminders_among st (take (k - 1) (filter payment_reminders (users st))) now)"
      by simp
  qed
  from first alerts summaries reminders show ?thesis by (intro conjI)
qed

theorem store_error_leaves_job_witness:
  "(\<exists>w'. send_all_monthly_summaries example_store
            (frozen_world (at_nine 2024 1 1) third_read_fails always_delivers)
            = (Inl StoreError, w') \<and>
          outbox w' = [(MonthlySummary ''alice@example.org'' 120 2 [video, music], True)]) \<and>
   (\<exists>w'. check_budget_alerts example_store
            (frozen_world (at_nine 2024 1 12) third_read_fails always_delivers)
            = (Inl StoreError, w') \<and>
          outbox w' = [(BudgetAlert ''alice@example.org'' 120 100 20, True)]) \<and>
   (\<exists>w'. check_payment_reminders example_store
            (frozen_world (at_nine 2024 1 12) third_read_fails always_delivers)
            = (Inl StoreError, w') \<and>
          outbox w' =
            [(PaymentReminder ''alice@example.org'' ''video'' 3 70 (midnight 2024 1 16), True)])"
proof -
  let ?w1 = "frozen_world (at_nine 2024 1 1) third_read_fails always_delivers"
  let ?w = "frozen_world (at_nine 2024 1 12) third_read_fails always_delivers"
  have ok1: "\<forall>i<2. store_fate ?w1 (reads ?w1 + i) = None"
    and bad1: "store_fate ?w1 (reads ?w1 + 2) = Some StoreError"
    and ok: "\<forall>i<2. store_fate ?w (reads ?w + i) = None"
    and bad: "store_fate ?w (reads ?w + 2) = Some StoreError"
    by (simp_all add: frozen_world_def third_read_fails_def)
  note t1 = store_error_leaves_job [OF ok1 bad1, of example_store "at_nine 2024 1 1"]
  note t = store_error_leaves_job [OF ok bad, of example_store "at_nine 2024 1 12"]
  have ls: "2 \<le> length (filter monthly_summary (users example_store))"
    and la: "2 \<le> length (filter (\<lambda>u. budget_alerts u \<and> monthly_budget u > 0)
                            (users example_store))"
    and lr: "2 \<le> length (filter payment_reminders (users example_store)) \<and>
          (\<forall>i. clock ?w i = at_nine 2024 1 12) \<and> valid_datetime (at_nine 2024 1 12) \<and>
          dt_year (at_nine 2024 1 12) < MAXYEAR \<and>
          (\<forall>s\<in>set (subscriptions example_store). 1 \<le> billing_date s \<and> billing_date s \<le> 31)"
    by (simp_all add: example_defs date_defs)
  have es: "stamp (mail_fate ?w1) (length (outbox ?w1))
              (List.map_filter (summary_for example_store)
                 (take (2 - 1) (filter monthly_summary (users example_store))))
            = [(MonthlySummary ''alice@example.org'' 120 2 [video, music], True)]"
    by (simp add: example_defs List.map_filter_def summary_for_def total_monthly_cost_def
          subscriptions_of_def)
  have ea: "stamp (mail_fate ?w) (length (outbox ?w))
              (List.map_filter (budget_alert_for example_store)
                 (take (2 - 1) (filter (\<lambda>u. budget_alerts u \<and> monthly_budget u > 0)
                                  (users example_store))))
            = [(BudgetAlert ''alice@example.org'' 120 100 20, True)]"
    by (simp add: example_defs List.map_filter_def budget_alert_for_def total_monthly_cost_def
          subscriptions_of_def)
  have er: "stamp (mail_fate ?w) (length (outbox ?w))
              (reminders_among example_store
                 (take (2 - 1) (filter payment_reminders (users example_store)))
                 (at_nine 2024 1 12))
            = [(PaymentReminder ''alice@example.org'' ''video'' 3 70 (midnight 2024 1 16), True)]"
    by (simp add: example_defs date_defs List.map_filter_def reminders_among_def
          reminder_for_def subscriptions_of_def)
  have ob1: "outbox ?w1 = []" and ob: "outbox ?w = []"
    by (simp_all add: frozen_world_def)
  from t1 have "2 \<le> length (filter monthly_summary (users example_store)) \<longrightarrow>
            (\<exists>w'. send_all_monthly_summaries example_store ?w1 = (Inl StoreError, w') \<and>
               outbox w' = outbox ?w1 @ stamp (mail_fate ?w1) (length (outbox ?w1))
                 (List.map_filter (summary_for example_store)
                    (take (2 - 1) (filter monthly_summary (users example_store)))))"
    by (elim conjE)
  from this ls have "\<exists>w'. send_all_monthly_summaries example_store ?w1 = (Inl StoreError, w') \<and>
               outbox w' = outbox ?w1 @ stamp (mail_fate ?w1) (length (outbox ?w1))
                 (List.map_filter (summary_for example_store)
                    (take (2 - 1) (filter monthly_summary (users example_store))))"
    by (rule mp)
  then have s: "\<exists>w'. send_all_monthly_summaries example_store ?w1 = (Inl StoreError, w') \<and>
          outbox w' = [(MonthlySummary ''alice@example.org'' 120 2 [video, music], True)]"
    unfolding es unfolding ob1 append_Nil .
  from t have "2 \<le> length (filter (\<lambda>u. budget_alerts u \<and> monthly_budget u > 0)
                            (users example_store)) \<longrightarrow>
            (\<exists>w'. check_budget_alerts example_store ?w = (Inl StoreError, w') \<and>
               outbox w' = outbox ?w @ stamp (mail_fate ?w) (length (outbox ?w))
                 (List.map_filter (budget_alert_for example_store)
                    (take (2 - 1)
                       (filter (\<lambda>u. budget_alerts u \<and> monthly_budget u > 0)
                          (users example_store)))))"
    by (elim conjE)
  from this la have "\<exists>w'. check_budget_alerts example_store ?w = (Inl StoreError, w') \<and>
               outbox w' = outbox ?w @ stamp (mail_fate ?w) (length (outbox ?w))
                 (List.map_filter (budget_alert_for example_store)
                    (take (2 - 1)
                       (filter (\<lambda>u. budget_alerts u \<and> monthly_budget u > 0)
                          (users example_store))))"
    by (rule mp)
  then have a: "\<exists>w'. check_budget_alerts example_store ?w = (Inl StoreError, w') \<and>
          outbox w' = [(BudgetAlert ''alice@example.org'' 120 100 20, True)]"
    unfolding ea unfolding ob append_Nil .
  from t have "2 \<le> length (filter payment_reminders (users example_store)) \<and>
          (\<forall>i. clock ?w i = at_nine 2024 1 12) \<and> valid_datetime (at_nine 2024 1 12) \<and>
          dt_year (at_nine 2024 1 12) < MAXYEAR \<and>
          (\<forall>s\<in>set (subscriptions example_store). 1 \<le> billing_date s \<and> billing_date s \<le> 31) \<longrightarrow>
            (\<exists>w'. check_payment_reminders example_store ?w = (Inl StoreError, w') \<and>
               outbox w' = outbox ?w @ stamp (mail_fate ?w) (length (outbox ?w))
                 (reminders_among example_store
                    (take (2 - 1) (filter payment_reminders (users example_store)))
                    (at_nine 2024 1 12)))"
    by (elim conjE)
  from this lr have "\<exists>w'. check_payment_reminders example_store ?w = (Inl StoreError, w') \<and>
               outbox w' = outbox ?w @ stamp (mail_fate ?w) (length (outbox ?w))
                 (reminders_among example_store
                    (take (2 - 1) (filter payment_reminders (users example_store)))
                    (at_nine 2024 1 12))"
    by (rule mp)
  then have r: "\<exists>w'. check_payment_reminders example_store ?w = (Inl StoreError, w') \<and>
          outbox w' =
            [(PaymentReminder ''alice@example.org'' ''video'' 3 70 (midnight 2024 1 16), True)]"
    unfolding er unfolding ob append_Nil .
  from s a r show ?thesis by (intro conjI)
qed

text \<open>
  C9. For every \<open>now\<close> whose time of day is after midnight, \<open>days_until\<close> is the number
  of calendar days from the date of \<open>now\<close> to the next payment date, minus 1: the date is
  built at midnight and the whole days of the duration round down. The calendar days are
  counted by stepping from one date to the day after it (\<open>days_later\<close>), through the
  ends of months and years, and not by the day numbers that the subtraction uses. So
  \<open>days_until = 3\<close> holds exactly when the payment date is the date 4 days after the
  date of \<open>now\<close>, and a reminder decided at such a \<open>now\<close> (the job runs at 09:00)
  concerns a payment 4 calendar days away. The example evaluates a pair of dates in the
  same month, one across the end of January and one across the end of the year.
\<close>

theorem days_until_after_midnight:
  assumes "valid_datetime now" "1 \<le> d" "d \<le> 31" "dt_year now < MAXYEAR"
    and "0 < dt_hour now \<or> 0 < dt_minute now \<or> 0 < dt_second now \<or> 0 < dt_microsecond now"
  shows "\<exists>k. next_payment_date d now = Inr (days_later k (today now)) \<and>
           days_until_payment d now = Inr (int k - 1) \<and>
           (days_until_payment d now = Inr 3 \<longleftrightarrow>
              next_payment_date d now = Inr (days_later 4 (today now))) \<and>
           (\<forall>(u::'a user) s m. 1 \<le> billing_date s \<and> reminder_for u s now = Some m \<longrightarrow>
              m = PaymentReminder (email u) (sub_name s) 3 (monthly_price s)
                    (days_later 4 (today now)) \<and>
              next_payment_date (billing_date s) now = Inr (days_later 4 (today now)))"
proof -
  have cal: "calendar_date (today now)"
    using assms(1) by (rule calendar_date_today)
  have ord: "toordinal (days_later j (today now)) = toordinal now + int j" for j
    using days_later_calendar [OF cal, of j] by (simp add: toordinal_today)
  have gap: "\<exists>k. next_payment_date b now = Inr (days_later k (today now)) \<and>
                 days_until_payment b now = Inr (int k - 1)"
    if b: "1 \<le> b" for b
  proof -
    from next_payment_date_days_later [OF assms(1) b assms(4)] obtain k where
      k: "next_payment_date b now = Inr (days_later k (today now))"
      and mid: "days_later k (today now) =
               midnight (dt_year (days_later k (today now))) (dt_month (days_later k (today now)))
                 (dt_day (days_later k (today now)))"
      by blast
    have "days (datetime_sub (days_later k (today now)) now) =
            toordinal (days_later k (today now)) - toordinal now - 1"
      using days_sub_midnight [OF assms(1,5), of "dt_year (days_later k (today now))"
          "dt_month (days_later k (today now))" "dt_day (days_later k (today now))"] mid
      by simp
    then have "days_until_payment b now = Inr (int k - 1)"
      using k by (simp add: days_until_payment_def ord)
    with k show ?thesis by blast
  qed
  have four: "days_until_payment b now = Inr 3 \<longleftrightarrow>
                next_payment_date b now = Inr (days_later 4 (today now))"
    if b: "1 \<le> b" for b
  proof -
    from gap [OF b] obtain k where
      k: "next_payment_date b now = Inr (days_later k (today now))"
        "days_until_payment b now = Inr (int k - 1)"
      by blast
    show ?thesis
    proof
      assume "days_until_payment b now = Inr 3"
      with k(2) have "k = 4" by simp
      with k(1) show "next_payment_date b now = Inr (days_later 4 (today now))" by simp
    next
      assume "next_payment_date b now = Inr (days_later 4 (today now))"
      with k(1) have "days_later k (today now) = days_later 4 (today now)" by simp
      then have "toordinal (days_later k (today now)) = toordinal (days_later 4 (today now))"
        by simp
      then have "k = 4" by (simp add: ord)
      with k(2) show "days_until_payment b now = Inr 3" by simp
    qed
  qed
  have rem: "m = PaymentReminder (email u) (sub_name s) 3 (monthly_price s)
                    (days_later 4 (today now)) \<and>
             next_payment_date (billing_date s) now = Inr (days_later 4 (today now))"
    if b: "1 \<le> billing_date s" and r: "reminder_for u s now = Some m"
    for u :: "'a user" and s :: "'a subscription" and m
  proof -
    from r have three: "days_until_payment (billing_date s) now = Inr 3"
      and m: "m = PaymentReminder (email u) (sub_name s) 3 (monthly_price s)
                 (projr (next_payment_date (billing_date s) now))"
      by (simp_all add: reminder_for_def split: if_splits)
    from three four [OF b] have "next_payment_date (billing_date s) now =
                                   Inr (days_later 4 (today now))"
      by simp
    with m show ?thesis by simp
  qed
  from gap [OF assms(2)] obtain k where
    k: "next_payment_date d now = Inr (days_later k (today now))"
      "days_until_payment d now = Inr (int k - 1)"
    by blast
  have all: "\<forall>(u::'a user) s m. 1 \<le> billing_date s \<and> reminder_for u s now = Some m \<longrightarrow>
              m = PaymentReminder (email u) (sub_name s) 3 (monthly_price s)
                    (days_later 4 (today now)) \<and>
              next_payment_date (billing_date s) now = Inr (days_later 4 (today now))"
  proof (intro allI impI, elim conjE)
    fix u :: "'a user" and s :: "'a subscription" and m
    assume "1 \<le> billing_date s" "reminder_for u s now = Some m"
    then show "m = PaymentReminder (email u) (sub_name s) 3 (monthly_price s)
                    (days_later 4 (today now)) \<and>
              next_payment_date (billing_date s) now = Inr (days_later 4 (today now))"
      by (rule rem)
  qed
  have "next_payment_date d now = Inr (days_later k (today now)) \<and>
        days_until_payment d now = Inr (int k - 1) \<and>
        (days_until_payment d now = Inr 3 \<longleftrightarrow>
           next_payment_date d now = Inr (days_later 4 (today now))) \<and>
        (\<forall>(u::'a user) s m. 1 \<le> billing_date s \<and> reminder_for u s now = Some m \<longrightarrow>
              m = PaymentReminder (email u) (sub_name s) 3 (monthly_price s)
                    (days_later 4 (today now)) \<and>
              next_payment_date (billing_date s) now = Inr (days_later 4 (today now)))"
    using k(1) k(2) four [OF assms(2)] all by (intro conjI)
  then show ?thesis by (rule exI)
qed

theorem days_until_after_midnight_witness:
  "days_until_payment 16 (at_nine 2024 1 12) = Inr 3 \<and>
   days_later 4 (today (at_nine 2024 1 12)) = midnight 2024 1 16 \<and>
   days_until_payment 2 (at_nine 2024 1 29) = Inr 3 \<and>
   days_later 4 (today (at_nine 2024 1 29)) = midnight 2024 2 2 \<and>
   days_until_payment 15 (at_nine 2024 1 20) = Inr 25 \<and>
   days_until_payment 1 (at_nine 2024 12 29) = Inr 2 \<and>
   days_later 3 (today (at_nine 2024 12 29)) = midnight 2025 1 1 \<and>
   reminder_for alice video (at_nine 2024 1 12) =
     Some (PaymentReminder ''alice@example.org'' ''video'' 3 70 (midnight 2024 1 16))"
proof -
  have tod: "0 < dt_hour (at_nine y m d) \<or> 0 < dt_minute (at_nine y m d) \<or>
     0 < dt_second (at_nine y m d) \<or> 0 < dt_microsecond (at_nine y m d)" for y m d
    by (simp add: at_nine_def)
  have v: "valid_datetime (at_nine 2024 1 12)" "valid_datetime (at_nine 2024 1 29)"
    "valid_datetime (at_nine 2024 1 20)" "valid_datetime (at_nine 2024 12 29)"
    by (simp_all add: at_nine_def date_defs)
  have y: "dt_year (at_nine 2024 m d) < MAXYEAR" for m d
    by (simp add: at_nine_def MAXYEAR_def)
  have step: "days_later (Suc j) t = day_after (days_later j t)" "days_later 0 t = t" for j t
    by (simp_all add: days_later_def)
  have l1: "days_later 4 (today (at_nine 2024 1 12)) = midnight 2024 1 16"
    and l2: "days_later 4 (today (at_nine 2024 1 29)) = midnight 2024 2 2"
    and l3: "days_later 3 (today (at_nine 2024 12 29)) = midnight 2025 1 1"
    by (simp_all add: eval_nat_numeral step today_def at_nine_def day_after_def
          calendar_days_def midnight_def)
  have n1: "next_payment_date 16 (at_nine 2024 1 12) = Inr (midnight 2024 1 16)"
    and n2: "next_payment_date 2 (at_nine 2024 1 29) = Inr (midnight 2024 2 2)"
    by (simp_all add: at_nine_def date_defs)
  have i1: "(1::int) \<le> 16" "(16::int) \<le> 31" and i2: "(1::int) \<le> 2" "(2::int) \<le> 31"
    by simp_all
  from days_until_after_midnight [OF v(1) i1 y tod] have
    "days_until_payment 16 (at_nine 2024 1 12) = Inr 3 \<longleftrightarrow>
       next_payment_date 16 (at_nine 2024 1 12) = Inr (days_later 4 (today (at_nine 2024 1 12)))"
    by blast
  with n1 l1 have a: "days_until_payment 16 (at_nine 2024 1 12) = Inr 3"
    by simp
  from days_until_after_midnight [OF v(2) i2 y tod] have
    "days_until_payment 2 (at_nine 2024 1 29) = Inr 3 \<longleftrightarrow>
       next_payment_date 2 (at_nine 2024 1 29) = Inr (days_later 4 (today (at_nine 2024 1 29)))"
    by blast
  with n2 l2 have b: "days_until_payment 2 (at_nine 2024 1 29) = Inr 3"
    by simp
  have c: "days_until_payment 15 (at_nine 2024 1 20) = Inr 25"
    by (simp add: at_nine_def date_defs)
  have d: "days_until_payment 1 (at_nine 2024 12 29) = Inr 2"
    by (simp add: at_nine_def date_defs)
  have r: "reminder_for alice video (at_nine 2024 1 12) =
     Some (PaymentReminder ''alice@example.org'' ''video'' 3 70 (midnight 2024 1 16))"
    using a n1 by (simp add: reminder_for_def alice_def video_def)
  from a l1 b l2 c d l3 r show ?thesis by (intro conjI)
qed

text \<open>
  C10. A user with \<open>monthly_summary\<close> and no subscription still gets a summary from the
  monthly-summary job, with total 0, count 0 and an empty list: there is no condition
  on the list, and the sum of no prices is 0.
\<close>

theorem monthly_summary_empty_subscriptions:
  fixes st :: "'a::{zero,plus} store"
  assumes "\<forall>i. store_fate w i = None" "u \<in> set (users st)" "monthly_summary u"
    and "subscriptions_of st u = []"
  shows "\<exists>n w' new. send_all_monthly_summaries st w = (Inr n, w') \<and>
           outbox w' = outbox w @ new \<and>
           MonthlySummary (email u) 0 0 [] \<in> set (map fst new) \<and>
           fst (get_total_monthly_cost st u w) = Inr 0"
proof -
  have "summary_for st u = Some (MonthlySummary (email u) 0 0 [])"
    using assms(3,4) by (simp add: summary_for_def total_monthly_cost_def)
  then have "MonthlySummary (email u) 0 0 [] \<in> set (summaries_due st)"
    using assms(2) by (force simp: summaries_due_def List.map_filter_def)
  then have mem: "MonthlySummary (email u) 0 0 []
      \<in> set (map fst (stamp (mail_fate w) (length (outbox w)) (summaries_due st)))"
    by (simp only: map_fst_stamp)
  have zero: "fst (get_total_monthly_cost st u w) = Inr 0"
    using assms(1,4) by (simp add: get_total_monthly_cost_eq total_monthly_cost_def)
  let ?new = "stamp (mail_fate w) (length (outbox w)) (summaries_due st)"
  let ?w' = "w\<lparr>ticks := Suc (ticks w + length (filter monthly_summary (users st))),
        reads := Suc (reads w + length (filter monthly_summary (users st))),
        outbox := outbox w @ ?new\<rparr>"
  have "send_all_monthly_summaries st w = (Inr (delivered ?new), ?w') \<and>
        outbox ?w' = outbox w @ ?new \<and>
        MonthlySummary (email u) 0 0 [] \<in> set (map fst ?new) \<and>
        fst (get_total_monthly_cost st u w) = Inr 0"
    using send_all_monthly_summaries_eq [OF assms(1), of st] mem zero by simp
  then show ?thesis by blast
qed

theorem monthly_summary_empty_subscriptions_witness:
  "\<exists>n w' new.
     send_all_monthly_summaries example_store
       (frozen_world (at_nine 2024 1 1) store_up always_delivers) = (Inr n, w') \<and>
     outbox w' = new \<and>
     MonthlySummary ''carol@example.org'' 0 0 [] \<in> set (map fst new)"
proof -
  let ?w = "frozen_world (at_nine 2024 1 1) store_up always_delivers"
  have h: "\<forall>i. store_fate ?w i = None" "carol \<in> set (users example_store)"
    "monthly_summary carol" "subscriptions_of example_store carol = []"
    by (simp_all add: example_defs subscriptions_of_def)
  from monthly_summary_empty_subscriptions [OF h] obtain n w' new where
    "send_all_monthly_summaries example_store ?w = (Inr n, w')"
    "outbox w' = outbox ?w @ new" "MonthlySummary (email carol) 0 0 [] \<in> set (map fst new)"
    by blast
  then show ?thesis by (simp add: frozen_world_def carol_def)
qed

end
